theory Spec2Isabelle
  imports Complex_Main "HOL-Library.Char_ord" "HOL-Library.List_Lexorder" "HOL-Library.Sublist"
begin

section \<open>The BitSlow server: coins, transactions, caches\<close>

text \<open>
  The server (\<^verbatim>\<open>index.tsx\<close>; its text follows the dashboard and register pages in
  \<^verbatim>\<open>src/pages/DashboardPage.tsx\<close>) keeps an in-memory SQLite database and two response caches. The handlers
  \<^verbatim>\<open>POST /api/coins/generate\<close>, \<^verbatim>\<open>POST /api/coins/buy\<close> and
  \<^verbatim>\<open>GET /api/coins/:id/history\<close> are embedded as functions from the server state and
  the request to a response and the new state. What a handler reads from outside the
  program is an argument of its model: the outcome of the token check, the JSON body
  (one that parses), the clock reading \<open>now\<close>, the successive results of
  \<^verbatim>\<open>Math.random()\<close>, and which database call (if any) throws. Numbers are doubles:
  where the handlers compute with them, the model rounds as the machine does. A handler runs from
  \<^verbatim>\<open>BEGIN TRANSACTION\<close> to its response without an \<^verbatim>\<open>await\<close>, so requests take effect
  one after the other.
\<close>

subsection \<open>JavaScript numbers\<close>

text \<open>
  A JavaScript number other than \<^verbatim>\<open>NaN\<close> (which JSON cannot carry): a finite value or an
  infinity (\<^verbatim>\<open>1e999\<close> in a JSON body is \<^verbatim>\<open>Infinity\<close>). \<open>le_zero\<close> is \<^verbatim>\<open>x <= 0\<close>.
\<close>

datatype number = Fin rat | Infinity | MinusInfinity

fun le_zero :: "number \<Rightarrow> bool" where
  "le_zero (Fin r) = (r \<le> 0)"
| "le_zero Infinity = False"
| "le_zero MinusInfinity = True"

text \<open>
  The finite numbers are IEEE 754 doubles, and arithmetic on them rounds to the nearest
  double, ties to the even significand. \<open>round_to_double x\<close> is that rounding for a
  rational \<open>x\<close> of magnitude below \<open>2 ^ 1024\<close>: \<open>binade a\<close> is the exponent \<open>e\<close> with
  \<open>2 ^ e \<le> a < 2 ^ (e + 1)\<close>, \<open>ulp a\<close> the distance between neighbouring doubles
  around \<open>a\<close> (53 significant bits, smallest exponent \<open>- 1022\<close>), and \<open>x\<close> is rounded to
  the nearest multiple of it.
\<close>

function floor_log2 :: "rat \<Rightarrow> nat" where
  "floor_log2 y = (if 2 \<le> y then Suc (floor_log2 (y / 2)) else 0)"
  by pat_completeness auto
termination
proof (relation "measure (\<lambda>y. nat \<lfloor>y\<rfloor>)")
  show "wf (measure (\<lambda>y::rat. nat \<lfloor>y\<rfloor>))" by simp
next
  fix y :: rat
  assume y: "2 \<le> y"
  then have "y / 2 \<le> y - 1" by simp
  then have "\<lfloor>y / 2\<rfloor> \<le> \<lfloor>y - 1\<rfloor>" by (rule floor_mono)
  moreover have "2 \<le> \<lfloor>y\<rfloor>" using y by (simp add: le_floor_iff)
  ultimately show "(y / 2, y) \<in> measure (\<lambda>y. nat \<lfloor>y\<rfloor>)" by simp
qed

declare floor_log2.simps [simp del]

definition binade :: "rat \<Rightarrow> int" where
  "binade a =
     (if 1 \<le> a then int (floor_log2 a)
      else if a * 2 ^ floor_log2 (1 / a) = 1 then - int (floor_log2 (1 / a))
      else - int (floor_log2 (1 / a)) - 1)"

definition round_half_even :: "rat \<Rightarrow> int" where
  "round_half_even q =
     (if q - of_int \<lfloor>q\<rfloor> < 1 / 2 then \<lfloor>q\<rfloor>
      else if 1 / 2 < q - of_int \<lfloor>q\<rfloor> then \<lfloor>q\<rfloor> + 1
      else if even \<lfloor>q\<rfloor> then \<lfloor>q\<rfloor> else \<lfloor>q\<rfloor> + 1)"

definition ulp :: "rat \<Rightarrow> rat" where
  "ulp a = 2 powi (max (binade a) (- 1022) - 52)"

definition round_to_double :: "rat \<Rightarrow> rat" where
  "round_to_double x =
     (if x = 0 then 0
      else sgn x * (of_int (round_half_even (\<bar>x\<bar> / ulp \<bar>x\<bar>)) * ulp \<bar>x\<bar>))"

text \<open>\<^verbatim>\<open>Number(result.lastInsertRowid)\<close>: the 64-bit row id as a number. Ids up to
  \<open>2 ^ 53\<close> are exact; an id above may be rounded to a neighbouring integer.\<close>

definition Number :: "int \<Rightarrow> int" where
  "Number i = \<lfloor>round_to_double (of_int i)\<rfloor>"

subsection \<open>Tables\<close>

text \<open>
  A row of \<^verbatim>\<open>coins\<close>; \<open>client_id = None\<close> is SQL \<^verbatim>\<open>NULL\<close> (the coin has no
  owner). The column \<^verbatim>\<open>value\<close> is \<open>coin_value\<close> here.
\<close>

record coin =
  coin_id :: int
  bit1 :: int
  bit2 :: int
  bit3 :: int
  coin_value :: number
  client_id :: "int option"

text \<open>A row of \<^verbatim>\<open>transactions\<close>; the columns \<^verbatim>\<open>id\<close> and \<^verbatim>\<open>coin_id\<close> are
  \<open>tx_id\<close> and \<open>tx_coin_id\<close>.\<close>

record transaction =
  tx_id :: int
  tx_coin_id :: int
  buyer_id :: int
  seller_id :: "int option"
  amount :: number
  transaction_date :: string

text \<open>The database: the two tables in row order, and \<^verbatim>\<open>clients\<close> as a map from
  the client's id to its name.\<close>

record database =
  coins :: "coin list"
  transactions :: "transaction list"
  clients :: "int \<rightharpoonup> string"

text \<open>An entry of \<^verbatim>\<open>transactionCache\<close> or \<^verbatim>\<open>coinCache\<close>: the cached page
  (serialised) and the time it was stored.\<close>

record cache_entry =
  data :: string
  timestamp :: int

record server =
  db :: database
  transactionCache :: "string \<rightharpoonup> cache_entry"
  coinCache :: "string \<rightharpoonup> cache_entry"

text \<open>What the paginated \<^verbatim>\<open>GET\<close> handlers serve from a cache at time \<open>now\<close>: the page
  stored under the key, if there is one and it is younger than two minutes
  (\<^verbatim>\<open>cachedData && now - cachedData.timestamp < CACHE_EXPIRY_TIME\<close>).\<close>

definition CACHE_EXPIRY_TIME :: int where
  "CACHE_EXPIRY_TIME = 2 * 60 * 1000"

definition cached_page :: "(string \<rightharpoonup> cache_entry) \<Rightarrow> string \<Rightarrow> int \<Rightarrow> string option" where
  "cached_page cache cacheKey now =
     (case cache cacheKey of
        None \<Rightarrow> None
      | Some cachedData \<Rightarrow>
          if now - timestamp cachedData < CACHE_EXPIRY_TIME then Some (data cachedData) else None)"

subsection \<open>Requests, responses and the environment\<close>

text \<open>A value of a parsed JSON body, as far as the handlers tell values apart.\<close>

datatype jsval = Undefined | Null | Bool bool | Num number | Str string

fun js_falsy :: "jsval \<Rightarrow> bool" where
  "js_falsy Undefined = True"
| "js_falsy Null = True"
| "js_falsy (Bool b) = (\<not> b)"
| "js_falsy (Num n) = (n = Fin 0)"
| "js_falsy (Str s) = (s = [])"

fun js_typeof :: "jsval \<Rightarrow> string" where
  "js_typeof Undefined = ''undefined''"
| "js_typeof Null = ''object''"
| "js_typeof (Bool b) = ''boolean''"
| "js_typeof (Num n) = ''number''"
| "js_typeof (Str s) = ''string''"

text \<open>The header check and \<^verbatim>\<open>TokenManager.verifyToken\<close>: no bearer header, a token
  that does not verify, or the \<^verbatim>\<open>userId\<close> of the verified token.\<close>

datatype auth = NoBearer | InvalidToken | UserData int

text \<open>The database calls of the handlers. The environment \<open>fault\<close> says which of them
  throw, and with what message; \<open>no_fault\<close> is a database that answers every call.\<close>

datatype db_call = SelectCoin | UpdateCoin | SelectBits | InsertCoin | InsertTransaction | Commit

type_synonym faults = "db_call \<Rightarrow> string option"

definition no_fault :: faults where
  "no_fault = (\<lambda>c. None)"

text \<open>One entry of the ownership timeline (\<^verbatim>\<open>OwnershipRecord\<close>); the field
  \<^verbatim>\<open>type\<close> is \<open>etype\<close>, and \<^verbatim>\<open>amount\<close> is \<open>paid\<close>.\<close>

datatype event_type = Generated | Transfer | Current

record ownership =
  date :: string
  owner_id :: "int option"
  owner_name :: "string option"
  etype :: event_type
  paid :: "number option"
  previous_owner_id :: "int option"
  previous_owner_name :: "string option"

text \<open>The objects the three handlers serialise as their JSON bodies, and the response with
  its status. (\<^verbatim>\<open>JSON.stringify\<close> writes an infinity as \<^verbatim>\<open>null\<close>.)\<close>

datatype body =
    Msg bool string
  | Purchased string int
  | Minted string int int int int number
  | History int "ownership list"

datatype response = Response (status: nat) (json: body)

subsection \<open>Row ids\<close>

text \<open>
  Modelled from the spec: the schema of the tables is created by \<^verbatim>\<open>seed.ts\<close>, which is
  not among the sources. The spec gives \<^verbatim>\<open>coin_id\<close> and \<^verbatim>\<open>id\<close> as integer primary
  keys assigned on creation; \<^verbatim>\<open>lastInsertRowid\<close> is then one more than the largest
  id in the table, and 1 in an empty table.
\<close>

definition next_rowid :: "int list \<Rightarrow> int" where
  "next_rowid ids = (case ids of [] \<Rightarrow> 1 | x # xs \<Rightarrow> fold max xs x + 1)"

subsection \<open>Drawing an unused combination\<close>

text \<open>The template literal \<^verbatim>\<open>`${bit1}-${bit2}-${bit3}`\<close>: decimal numerals joined by
  dashes.\<close>

definition digit_char :: "nat \<Rightarrow> char" where
  "digit_char d = ''0123456789'' ! d"

function decimal :: "nat \<Rightarrow> string" where
  "decimal n = (if 10 \<le> n then decimal (n div 10) @ [digit_char (n mod 10)] else [digit_char n])"
  by pat_completeness auto
termination
  by (relation "measure (\<lambda>n. n)") auto

declare decimal.simps [simp del]

definition number_to_string :: "int \<Rightarrow> string" where
  "number_to_string i = (if i < 0 then CHR ''-'' # decimal (nat (- i)) else decimal (nat i))"

definition combinationKey :: "int \<Rightarrow> int \<Rightarrow> int \<Rightarrow> string" where
  "combinationKey b1 b2 b3 =
     number_to_string b1 @ ''-'' @ number_to_string b2 @ ''-'' @ number_to_string b3"

definition coin_key :: "coin \<Rightarrow> string" where
  "coin_key c = combinationKey (bit1 c) (bit2 c) (bit3 c)"

text \<open>\<^verbatim>\<open>Math.floor(Math.random() * 10) + 1\<close>, for a result \<open>r\<close> of \<^verbatim>\<open>Math.random()\<close>:
  the product is rounded to a double before the floor is taken.\<close>

definition random_bit :: "rat \<Rightarrow> int" where
  "random_bit r = \<lfloor>round_to_double (r * 10)\<rfloor> + 1"

definition MAX_ATTEMPTS :: nat where
  "MAX_ATTEMPTS = 10000"

definition exhausted_message :: string where
  "exhausted_message = ''Could not find unique bit combination after many attempts''"

text \<open>
  The \<^verbatim>\<open>do ... while\<close> loop of \<^verbatim>\<open>generateUniqueBits\<close>. \<open>attempts\<close> is the counter
  on entry to the body; the body draws three numbers (the results \<open>3 * attempts\<close>,
  \<open>3 * attempts + 1\<close> and \<open>3 * attempts + 2\<close> of \<^verbatim>\<open>Math.random()\<close>), increments the
  counter, throws when it exceeds \<open>MAX_ATTEMPTS\<close>, and repeats while the key is in
  the set.
\<close>

function draw_loop :: "string set \<Rightarrow> (nat \<Rightarrow> rat) \<Rightarrow> nat \<Rightarrow> string + (int \<times> int \<times> int)" where
  "draw_loop existingCombinations rnd attempts =
     (if Suc attempts > MAX_ATTEMPTS then Inl exhausted_message
      else if combinationKey (random_bit (rnd (3 * attempts)))
                (random_bit (rnd (3 * attempts + 1)))
                (random_bit (rnd (3 * attempts + 2))) \<in> existingCombinations
      then draw_loop existingCombinations rnd (Suc attempts)
      else Inr (random_bit (rnd (3 * attempts)),
                random_bit (rnd (3 * attempts + 1)),
                random_bit (rnd (3 * attempts + 2))))"
  by pat_completeness auto
termination
  by (relation "measure (\<lambda>(e, r, attempts). MAX_ATTEMPTS - attempts)") auto

declare draw_loop.simps [simp del]

definition generateUniqueBits :: "database \<Rightarrow> (nat \<Rightarrow> rat) \<Rightarrow> faults \<Rightarrow> string + (int \<times> int \<times> int)" where
  "generateUniqueBits d rnd fault =
     (case fault SelectBits of
        Some e \<Rightarrow> Inl e
      | None \<Rightarrow> draw_loop (set (map coin_key (coins d))) rnd 0)"

subsection \<open>\<^verbatim>\<open>POST /api/coins/generate\<close>\<close>

text \<open>
  The statements between \<^verbatim>\<open>BEGIN TRANSACTION\<close> and \<^verbatim>\<open>COMMIT\<close>. \<open>Inl e\<close> is an
  error thrown with message \<open>e\<close>; \<open>Inr\<close> carries the database as committed, the
  \<^verbatim>\<open>coinId\<close> of the handler and the drawn bits. The new row of \<^verbatim>\<open>coins\<close> has the row id
  the database assigned; the transaction and the response carry \<^verbatim>\<open>coinId\<close>, that id as
  a number.
\<close>

definition generate_tx ::
  "database \<Rightarrow> int \<Rightarrow> number \<Rightarrow> string \<Rightarrow> (nat \<Rightarrow> rat) \<Rightarrow> faults
     \<Rightarrow> string + (database \<times> int \<times> int \<times> int \<times> int)" where
  "generate_tx d userId v now rnd fault =
     (case generateUniqueBits d rnd fault of
        Inl e \<Rightarrow> Inl e
      | Inr (b1, b2, b3) \<Rightarrow>
          (case fault InsertCoin of
             Some e \<Rightarrow> Inl e
           | None \<Rightarrow>
               let lastInsertRowid = next_rowid (map coin_id (coins d));
                   d1 = d\<lparr>coins := coins d @
                          [\<lparr>coin_id = lastInsertRowid, bit1 = b1, bit2 = b2, bit3 = b3,
                            coin_value = v, client_id = Some userId\<rparr>]\<rparr>;
                   coinId = Number lastInsertRowid
               in (case fault InsertTransaction of
                     Some e \<Rightarrow> Inl e
                   | None \<Rightarrow>
                       let d2 = d1\<lparr>transactions := transactions d1 @
                                  [\<lparr>tx_id = next_rowid (map tx_id (transactions d1)),
                                    tx_coin_id = coinId, buyer_id = userId, seller_id = None,
                                    amount = v, transaction_date = now\<rparr>]\<rparr>
                       in (case fault Commit of
                             Some e \<Rightarrow> Inl e
                           | None \<Rightarrow> Inr (d2, coinId, b1, b2, b3)))))"

text \<open>
  The handler. A response before \<^verbatim>\<open>BEGIN TRANSACTION\<close> leaves the server as it is; an
  error thrown inside the transaction is caught, \<^verbatim>\<open>ROLLBACK\<close> puts the database back
  as it was at \<^verbatim>\<open>BEGIN\<close>, and the caches are not touched; after \<^verbatim>\<open>COMMIT\<close> both
  caches are cleared.
\<close>

definition generate_POST ::
  "server \<Rightarrow> auth \<Rightarrow> jsval \<Rightarrow> string \<Rightarrow> (nat \<Rightarrow> rat) \<Rightarrow> faults \<Rightarrow> response \<times> server" where
  "generate_POST srv authz data_value now rnd fault =
     (case authz of
        NoBearer \<Rightarrow> (Response 401 (Msg False ''No token provided''), srv)
      | InvalidToken \<Rightarrow> (Response 401 (Msg False ''Invalid or expired token''), srv)
      | UserData userId \<Rightarrow>
          (if js_falsy data_value \<or> js_typeof data_value \<noteq> ''number''
                \<or> (case data_value of Num n \<Rightarrow> le_zero n | _ \<Rightarrow> False)
           then (Response 400 (Msg False ''Valid monetary value is required''), srv)
           else
             (case generate_tx (db srv) userId (case data_value of Num n \<Rightarrow> n | _ \<Rightarrow> Fin 0)
                     now rnd fault of
                Inl e \<Rightarrow> (Response 500 (Msg False (''Error generating coin: '' @ e)), srv)
              | Inr (d', coinId, b1, b2, b3) \<Rightarrow>
                  (Response 200 (Minted ''Coin generated successfully'' coinId b1 b2 b3
                                   (case data_value of Num n \<Rightarrow> n | _ \<Rightarrow> Fin 0)),
                   srv\<lparr>db := d', transactionCache := Map.empty, coinCache := Map.empty\<rparr>))))"

subsection \<open>\<^verbatim>\<open>POST /api/coins/buy\<close>\<close>

text \<open>
  \<open>data_coin_id\<close> is \<^verbatim>\<open>data.coin_id\<close> of the parsed request body: an integer, as the
  marketplace page sends it, or \<open>None\<close> when the body has none. \<^verbatim>\<open>!data.coin_id\<close> holds for
  a missing id and for 0.

  The outcome of the statements between \<^verbatim>\<open>BEGIN TRANSACTION\<close> and \<^verbatim>\<open>COMMIT\<close>: a
  response returned after an explicit \<^verbatim>\<open>ROLLBACK\<close>, an error thrown by a database
  call, or the database as committed. The \<^verbatim>\<open>UPDATE\<close> sets the owner of every row with
  the given id.
\<close>

datatype buy_outcome = Returned response | Thrown string | Committed database

definition buy_tx :: "database \<Rightarrow> int \<Rightarrow> int \<Rightarrow> string \<Rightarrow> faults \<Rightarrow> buy_outcome" where
  "buy_tx d buyerId coinId now fault =
     (case fault SelectCoin of
        Some e \<Rightarrow> Thrown e
      | None \<Rightarrow>
          (case find (\<lambda>c. coin_id c = coinId) (coins d) of
             None \<Rightarrow> Returned (Response 404 (Msg False ''Coin not found''))
           | Some c \<Rightarrow>
               if client_id c \<noteq> None
               then Returned (Response 400 (Msg False ''Coin already has an owner''))
               else
                 (case fault UpdateCoin of
                    Some e \<Rightarrow> Thrown e
                  | None \<Rightarrow>
                      let d1 = d\<lparr>coins := map (\<lambda>r. if coin_id r = coinId
                                                   then r\<lparr>client_id := Some buyerId\<rparr> else r)
                                              (coins d)\<rparr>
                      in (case fault InsertTransaction of
                            Some e \<Rightarrow> Thrown e
                          | None \<Rightarrow>
                              let d2 = d1\<lparr>transactions := transactions d1 @
                                         [\<lparr>tx_id = next_rowid (map tx_id (transactions d1)),
                                           tx_coin_id = coinId, buyer_id = buyerId,
                                           seller_id = None, amount = coin_value c,
                                           transaction_date = now\<rparr>]\<rparr>
                              in (case fault Commit of
                                    Some e \<Rightarrow> Thrown e
                                  | None \<Rightarrow> Committed d2)))))"

text \<open>
  The purchase itself, from \<^verbatim>\<open>BEGIN TRANSACTION\<close> to the response (the operation
  \<^verbatim>\<open>buy(requester, coinId)\<close> of the ledger): after \<^verbatim>\<open>ROLLBACK\<close> the server is as before,
  after \<^verbatim>\<open>COMMIT\<close> both caches are cleared.
\<close>

definition buy :: "server \<Rightarrow> int \<Rightarrow> int \<Rightarrow> string \<Rightarrow> faults \<Rightarrow> response \<times> server" where
  "buy srv buyerId coinId now fault =
     (case buy_tx (db srv) buyerId coinId now fault of
        Returned r \<Rightarrow> (r, srv)
      | Thrown e \<Rightarrow> (Response 500 (Msg False ''Server error during purchase''), srv)
      | Committed d' \<Rightarrow>
          (Response 200 (Purchased ''Coin purchased successfully'' coinId),
           srv\<lparr>db := d', transactionCache := Map.empty, coinCache := Map.empty\<rparr>))"

text \<open>The handler: the token check and the validation of the request come first.\<close>

definition buy_POST ::
  "server \<Rightarrow> auth \<Rightarrow> int option \<Rightarrow> string \<Rightarrow> faults \<Rightarrow> response \<times> server" where
  "buy_POST srv authz data_coin_id now fault =
     (case authz of
        NoBearer \<Rightarrow> (Response 401 (Msg False ''No token provided''), srv)
      | InvalidToken \<Rightarrow> (Response 401 (Msg False ''Invalid or expired token''), srv)
      | UserData buyerId \<Rightarrow>
          (if data_coin_id = None \<or> data_coin_id = Some 0
           then (Response 400 (Msg False ''Coin ID is required''), srv)
           else buy srv buyerId (the data_coin_id) now fault))"

text \<open>The responses by the names the specification gives the failures.\<close>

definition NotFoundError :: response where
  "NotFoundError = Response 404 (Msg False ''Coin not found'')"

definition AlreadyOwnedError :: response where
  "AlreadyOwnedError = Response 400 (Msg False ''Coin already has an owner'')"

definition ValidationError :: response where
  "ValidationError = Response 400 (Msg False ''Valid monetary value is required'')"

definition ExhaustionError :: response where
  "ExhaustionError = Response 500 (Msg False (''Error generating coin: '' @ exhausted_message))"

subsection \<open>\<^verbatim>\<open>GET /api/coins/:id/history\<close>\<close>

text \<open>
  A row of the history query: the transactions of the coin, ordered by
  \<^verbatim>\<open>transaction_date\<close> (text, compared byte by byte), each joined with its buyer
  (\<^verbatim>\<open>JOIN\<close>: a transaction whose buyer is no client has no row) and its seller
  (\<^verbatim>\<open>LEFT JOIN\<close>: \<^verbatim>\<open>seller.id\<close> and \<^verbatim>\<open>seller.name\<close> are \<^verbatim>\<open>NULL\<close> when there is no
  such client). SQL leaves the order of rows with equal dates open; here they keep the
  order of the table.
\<close>

record tx_row =
  row_transaction_date :: string
  row_amount :: number
  row_seller_id :: "int option"
  row_seller_name :: "string option"
  row_buyer_id :: int
  row_buyer_name :: string

definition coin_transactions :: "database \<Rightarrow> int \<Rightarrow> transaction list" where
  "coin_transactions d coinId =
     sort_key transaction_date (filter (\<lambda>t. tx_coin_id t = coinId) (transactions d))"

definition join_clients :: "database \<Rightarrow> transaction \<Rightarrow> tx_row option" where
  "join_clients d t =
     (case clients d (buyer_id t) of
        None \<Rightarrow> None
      | Some buyer_name \<Rightarrow>
          Some \<lparr>row_transaction_date = transaction_date t, row_amount = amount t,
                row_seller_id = (case seller_id t of
                                   None \<Rightarrow> None
                                 | Some sid \<Rightarrow> (case clients d sid of None \<Rightarrow> None | Some n \<Rightarrow> Some sid)),
                row_seller_name = (case seller_id t of None \<Rightarrow> None | Some sid \<Rightarrow> clients d sid),
                row_buyer_id = buyer_id t, row_buyer_name = buyer_name\<rparr>)"

definition history_query :: "database \<Rightarrow> int \<Rightarrow> tx_row list" where
  "history_query d coinId = List.map_filter (join_clients d) (coin_transactions d coinId)"

definition generated_event :: "tx_row \<Rightarrow> ownership" where
  "generated_event tx =
     \<lparr>date = row_transaction_date tx, owner_id = Some (row_buyer_id tx),
      owner_name = Some (row_buyer_name tx), etype = Generated, paid = Some (row_amount tx),
      previous_owner_id = None, previous_owner_name = Some ''Original Issuer''\<rparr>"

definition transfer_event :: "tx_row \<Rightarrow> ownership" where
  "transfer_event tx =
     \<lparr>date = row_transaction_date tx, owner_id = Some (row_buyer_id tx),
      owner_name = Some (row_buyer_name tx), etype = Transfer, paid = Some (row_amount tx),
      previous_owner_id = row_seller_id tx, previous_owner_name = row_seller_name tx\<rparr>"

text \<open>The \<^verbatim>\<open>for\<close> loop over the rows, with its three variables; it returns the
  timeline and \<^verbatim>\<open>lastOwnerId\<close>.\<close>

fun timeline_loop ::
  "tx_row list \<Rightarrow> ownership list \<Rightarrow> int option \<Rightarrow> bool \<Rightarrow> ownership list \<times> int option" where
  "timeline_loop [] ownershipHistory lastOwnerId isFirstTransaction =
     (ownershipHistory, lastOwnerId)"
| "timeline_loop (tx # txs) ownershipHistory lastOwnerId isFirstTransaction =
     timeline_loop txs
       (ownershipHistory @ [if isFirstTransaction then generated_event tx else transfer_event tx])
       (Some (row_buyer_id tx)) False"

text \<open>\<^verbatim>\<open>id ? (SELECT name FROM clients WHERE id = ?)?.name : null\<close>: no name for
  \<^verbatim>\<open>null\<close>, for the falsy id 0 and for an id that is no client.\<close>

definition client_name :: "database \<Rightarrow> int option \<Rightarrow> string option" where
  "client_name d i = (case i of None \<Rightarrow> None | Some c \<Rightarrow> if c = 0 then None else clients d c)"

definition current_owner :: "database \<Rightarrow> coin \<Rightarrow> ownership list \<Rightarrow> int option \<Rightarrow> ownership" where
  "current_owner d c ownershipHistory lastOwnerId =
     (let currentOwner =
            \<lparr>date = ''Current'', owner_id = client_id c,
             owner_name = client_name d (client_id c), etype = Current, paid = None,
             previous_owner_id = lastOwnerId,
             previous_owner_name = client_name d lastOwnerId\<rparr>;
          currentOwner =
            (if ownershipHistory \<noteq> []
             then currentOwner\<lparr>previous_owner_id := owner_id (last ownershipHistory),
                               previous_owner_name := owner_name (last ownershipHistory)\<rparr>
             else currentOwner)
      in if client_id c = None
         then currentOwner\<lparr>owner_name := Some ''Available for Purchase''\<rparr>
         else currentOwner)"

text \<open>The handler; \<open>None\<close> is a path segment that \<^verbatim>\<open>Number.parseInt\<close> turns into
  \<^verbatim>\<open>NaN\<close>. The handler writes nothing.\<close>

definition history_GET :: "database \<Rightarrow> int option \<Rightarrow> response" where
  "history_GET d coinId =
     (case coinId of
        None \<Rightarrow> Response 400 (Msg False ''Invalid coin ID'')
      | Some i \<Rightarrow>
          (case find (\<lambda>c. coin_id c = i) (coins d) of
             None \<Rightarrow> Response 404 (Msg False ''Coin not found'')
           | Some c \<Rightarrow>
               (case timeline_loop (history_query d i) [] None True of
                  (ownershipHistory, lastOwnerId) \<Rightarrow>
                    Response 200
                      (History i (ownershipHistory @ [current_owner d c ownershipHistory lastOwnerId])))))"

text \<open>What \<^verbatim>\<open>CoinHistoryModal\<close> shows as the seller of a transfer:
  \<^verbatim>\<open>record.previous_owner_name || "Original Issuer"\<close>.\<close>

definition previous_owner_label :: "ownership \<Rightarrow> string" where
  "previous_owner_label r =
     (case previous_owner_name r of
        None \<Rightarrow> ''Original Issuer''
      | Some n \<Rightarrow> if n = [] then ''Original Issuer'' else n)"

subsection \<open>Runs of the server\<close>

text \<open>A mutating request with everything its handler reads, and the state after a
  sequence of them.\<close>

datatype request =
    Generate auth jsval string "nat \<Rightarrow> rat" faults
  | Buy auth "int option" string faults

fun handle :: "server \<Rightarrow> request \<Rightarrow> response \<times> server" where
  "handle srv (Generate authz v now rnd fault) = generate_POST srv authz v now rnd fault"
| "handle srv (Buy authz i now fault) = buy_POST srv authz i now fault"

definition run :: "server \<Rightarrow> request list \<Rightarrow> server" where
  "run srv reqs = foldl (\<lambda>s r. snd (handle s r)) srv reqs"

text \<open>The combination of a coin, and the invariant of the \<^verbatim>\<open>coins\<close> table.\<close>

definition triple :: "coin \<Rightarrow> int \<times> int \<times> int" where
  "triple c = (bit1 c, bit2 c, bit3 c)"

definition unique_triples :: "database \<Rightarrow> bool" where
  "unique_triples d = distinct (map triple (coins d))"

text \<open>\<^verbatim>\<open>Math.random()\<close> returns a number in \<open>[0, 1)\<close>: a double, that is, a value
  that rounding leaves as it is.\<close>

definition random_source :: "(nat \<Rightarrow> rat) \<Rightarrow> bool" where
  "random_source rnd = (\<forall>i. 0 \<le> rnd i \<and> rnd i < 1 \<and> round_to_double (rnd i) = rnd i)"

subsection \<open>Foreign keys\<close>

text \<open>
  Modelled from the spec: the schema (created by \<^verbatim>\<open>seed.ts\<close>, not among the sources) is
  given as \<^verbatim>\<open>transactions(id PK, coin_id FK, buyer_id FK, seller_id FK nullable, ...)\<close>.
  \<open>transactions_of_coins\<close>: every transaction is for a coin in the table.
  \<open>parties_are_clients\<close>: every buyer, and every seller that is not \<^verbatim>\<open>NULL\<close>, is a
  client.
\<close>

definition transactions_of_coins :: "database \<Rightarrow> bool" where
  "transactions_of_coins d =
     list_all (\<lambda>t. tx_coin_id t \<in> set (map coin_id (coins d))) (transactions d)"

definition parties_are_clients :: "database \<Rightarrow> bool" where
  "parties_are_clients d =
     list_all (\<lambda>t. clients d (buyer_id t) \<noteq> None \<and>
                    (case seller_id t of None \<Rightarrow> True | Some s \<Rightarrow> clients d s \<noteq> None))
       (transactions d)"

subsection \<open>Example states\<close>

text \<open>A small database: coin 1 is owned by client 1 since it was issued, coin 2 has no
  owner yet; and a server that has cached a page of each kind.\<close>

definition example_db :: database where
  "example_db =
     \<lparr>coins = [\<lparr>coin_id = 1, bit1 = 4, bit2 = 5, bit3 = 6, coin_value = Fin 500, client_id = Some 1\<rparr>,
               \<lparr>coin_id = 2, bit1 = 1, bit2 = 10, bit3 = 3, coin_value = Fin 70, client_id = None\<rparr>],
      transactions = [\<lparr>tx_id = 1, tx_coin_id = 1, buyer_id = 1, seller_id = None, amount = Fin 500,
                       transaction_date = ''2025-03-01T10:00:00.000Z''\<rparr>],
      clients = [1 \<mapsto> ''Ana'', 2 \<mapsto> ''Bogdan'']\<rparr>"

definition example_server :: server where
  "example_server =
     \<lparr>db = example_db,
      transactionCache = [''transactions-1-15-{}'' \<mapsto> \<lparr>data = ''page'', timestamp = 1000\<rparr>],
      coinCache = [''coins-1-15'' \<mapsto> \<lparr>data = ''page'', timestamp = 1000\<rparr>]\<rparr>"

text \<open>The doubles that the literals 0.0, 0.1, ..., 0.9 denote, and a source of random
  numbers that returns 0.3, 0.4, 0.5, ... in turn.\<close>

definition tenths :: "rat list" where
  "tenths =
     [0,
      3602879701896397 / 36028797018963968,
      3602879701896397 / 18014398509481984,
      5404319552844595 / 18014398509481984,
      3602879701896397 / 9007199254740992,
      1 / 2,
      5404319552844595 / 9007199254740992,
      3152519739159347 / 4503599627370496,
      3602879701896397 / 4503599627370496,
      8106479329266893 / 9007199254740992]"

definition example_rnd :: "nat \<Rightarrow> rat" where
  "example_rnd i = tenths ! ((i + 3) mod 10)"

text \<open>Three requests in a row: client 2 mints a coin, buys coin 2, and client 1 mints
  another coin. The random numbers repeat, so the second mint draws combinations that
  are taken before it finds a free one.\<close>

definition example_requests :: "request list" where
  "example_requests =
     [Generate (UserData 2) (Num (Fin 250)) ''2025-03-02T09:30:00.000Z'' example_rnd no_fault,
      Buy (UserData 2) (Some 2) ''2025-03-02T09:31:00.000Z'' no_fault,
      Generate (UserData 1) (Num (Fin 10)) ''2025-03-02T09:32:00.000Z'' example_rnd no_fault]"


text \<open>A database as a seed may leave it: coin 5 was issued to client 1, sold by client 1
  to client 2, and then bought by client 3 with no seller recorded. The rows of
  \<^verbatim>\<open>transactions\<close> are not in date order.\<close>

definition history_db :: database where
  "history_db =
     \<lparr>coins = [\<lparr>coin_id = 5, bit1 = 2, bit2 = 2, bit3 = 9, coin_value = Fin 90, client_id = Some 3\<rparr>,
               \<lparr>coin_id = 6, bit1 = 3, bit2 = 1, bit3 = 1, coin_value = Fin 40, client_id = Some 1\<rparr>],
      transactions =
        [\<lparr>tx_id = 11, tx_coin_id = 5, buyer_id = 2, seller_id = Some 1, amount = Fin 80,
          transaction_date = ''2025-02-10T08:00:00.000Z''\<rparr>,
         \<lparr>tx_id = 12, tx_coin_id = 6, buyer_id = 1, seller_id = None, amount = Fin 40,
          transaction_date = ''2025-01-20T08:00:00.000Z''\<rparr>,
         \<lparr>tx_id = 13, tx_coin_id = 5, buyer_id = 3, seller_id = None, amount = Fin 90,
          transaction_date = ''2025-03-01T08:00:00.000Z''\<rparr>,
         \<lparr>tx_id = 14, tx_coin_id = 5, buyer_id = 1, seller_id = None, amount = Fin 70,
          transaction_date = ''2025-01-05T08:00:00.000Z''\<rparr>],
      clients = [1 \<mapsto> ''Ana'', 2 \<mapsto> ''Bogdan'', 3 \<mapsto> ''Carmen'']\<rparr>"

text \<open>The timeline of its coin 5.\<close>

definition history_timeline :: "ownership list" where
  "history_timeline =
     [\<lparr>date = ''2025-01-05T08:00:00.000Z'', owner_id = Some 1, owner_name = Some ''Ana'',
       etype = Generated, paid = Some (Fin 70), previous_owner_id = None,
       previous_owner_name = Some ''Original Issuer''\<rparr>,
      \<lparr>date = ''2025-02-10T08:00:00.000Z'', owner_id = Some 2, owner_name = Some ''Bogdan'',
       etype = Transfer, paid = Some (Fin 80), previous_owner_id = Some 1,
       previous_owner_name = Some ''Ana''\<rparr>,
      \<lparr>date = ''2025-03-01T08:00:00.000Z'', owner_id = Some 3, owner_name = Some ''Carmen'',
       etype = Transfer, paid = Some (Fin 90), previous_owner_id = None,
       previous_owner_name = None\<rparr>,
      \<lparr>date = ''Current'', owner_id = Some 3, owner_name = Some ''Carmen'',
       etype = Current, paid = None, previous_owner_id = Some 3,
       previous_owner_name = Some ''Carmen''\<rparr>]"

text \<open>The combination space: every component of a coin in it lies in \<open>[1, 10]\<close>.\<close>

definition in_space :: "coin \<Rightarrow> bool" where
  "in_space c = (1 \<le> bit1 c \<and> bit1 c \<le> 10 \<and> 1 \<le> bit2 c \<and> bit2 c \<le> 10 \<and> 1 \<le> bit3 c \<and> bit3 c \<le> 10)"

text \<open>A full table: 1000 coins, one for each combination, none of them sold yet.\<close>

definition full_coins :: "coin list" where
  "full_coins = map (\<lambda>n. \<lparr>coin_id = int n + 1, bit1 = int (n div 100) + 1,
        bit2 = int (n div 10 mod 10) + 1, bit3 = int (n mod 10) + 1, coin_value = Fin 25,
        client_id = None\<rparr>) [0..<1000]"

definition full_server :: server where
  "full_server =
     \<lparr>db = \<lparr>coins = full_coins, transactions = [], clients = [1 \<mapsto> ''Ana'']\<rparr>,
      transactionCache = [''transactions-1-15-{}'' \<mapsto> \<lparr>data = ''page'', timestamp = 1000\<rparr>],
      coinCache = Map.empty\<rparr>"

section \<open>Properties\<close>

subsection \<open>Rounding to doubles\<close>

text \<open>The exponent of a positive rational, and the error of rounding: a product below 16
  moves by at most \<open>2 ^ - 50\<close>.\<close>

lemma floor_log2_bounds: "1 \<le> y \<Longrightarrow> 2 ^ floor_log2 y \<le> y \<and> y < 2 * 2 ^ floor_log2 y"
proof (induction y rule: floor_log2.induct)
  case (1 y)
  show ?case
  proof (cases "2 \<le> y")
    case True
    then have "1 \<le> y / 2" by simp
    from 1(1) [OF True this] True show ?thesis
      by (subst (1 2) floor_log2.simps) (simp add: field_simps)
  next
    case False
    with 1(2) show ?thesis
      by (subst (1 2) floor_log2.simps) simp
  qed
qed

lemma binade_bounds:
  assumes "0 < a"
  shows "2 powi binade a \<le> a \<and> a < 2 powi (binade a + 1)"
proof (cases "1 \<le> a")
  case True
  from floor_log2_bounds [OF True] True show ?thesis
    by (simp add: binade_def power_int_add)
next
  case False
  define k where "k = floor_log2 (1 / a)"
  from False assms have "1 \<le> 1 / a" by simp
  from floor_log2_bounds [OF this]
  have lo: "2 ^ k \<le> 1 / a" and hi: "1 / a < 2 * 2 ^ k" by (simp_all add: k_def)
  have pk: "(0::rat) < 2 ^ k" by simp
  from lo assms have a_le: "a * 2 ^ k \<le> 1" by (simp add: field_simps)
  from hi assms have a_gt: "1 < a * (2 * 2 ^ k)" by (simp add: field_simps)
  have p1: "(2::rat) powi (- int k - 1) = 1 / (2 * 2 ^ k)"
    by (simp add: power_int_diff power_int_minus field_simps)
  have p2: "(2::rat) powi (- int k - 1 + 1) = 1 / 2 ^ k"
    by (simp add: power_int_minus field_simps)
  have p3: "(2::rat) powi (- int k) = 1 / 2 ^ k"
    by (simp add: power_int_minus field_simps)
  have "(2::rat) powi (- int k + 1) = 2 powi (- int k) * 2 powi 1"
    by (rule power_int_add) simp
  then have p4: "(2::rat) powi (- int k + 1) = 2 / 2 ^ k"
    by (simp only: p3) simp
  show ?thesis
  proof (cases "a * 2 ^ k = 1")
    case True
    have b: "binade a = - int k" using False True by (simp add: binade_def k_def)
    from True pk have a: "a = 1 / 2 ^ k" by (simp add: field_simps)
    have "1 / 2 ^ k \<le> a" by (simp only: a [symmetric])
    moreover have "a < 2 / 2 ^ k"
    proof -
      have "(1::rat) / 2 ^ k < 2 / 2 ^ k" using pk by (simp add: divide_strict_right_mono)
      then show ?thesis by (simp only: a [symmetric])
    qed
    ultimately show ?thesis unfolding b p3 p4 by simp
  next
    case ne: False
    have b: "binade a = - int k - 1" using False ne by (simp add: binade_def k_def)
    from a_le ne have "a * 2 ^ k < 1" by simp
    then have up: "a < 1 / 2 ^ k" using pk by (simp add: field_simps)
    from a_gt have low: "1 / (2 * 2 ^ k) < a" using pk by (simp add: field_simps)
    show ?thesis unfolding b p1 p2 using up low by simp
  qed
qed

lemma powi_less_exp: "(2::rat) powi m < 2 powi n \<Longrightarrow> m < n"
proof (rule ccontr)
  assume lt: "(2::rat) powi m < 2 powi n" and "\<not> m < n"
  then have "n \<le> m" by simp
  then have "(2::rat) powi n \<le> 2 powi m" by (intro power_int_increasing) simp_all
  with lt show False by simp
qed

lemma binade_less: "0 < a \<Longrightarrow> a < 2 powi n \<Longrightarrow> binade a < n"
  using binade_bounds [of a] powi_less_exp [of "binade a" n] by simp

lemma binade_ge: "2 powi n \<le> a \<Longrightarrow> n \<le> binade a"
proof -
  assume n: "2 powi n \<le> a"
  have "(0::rat) < 2 powi n" by simp
  with n have "0 < a" by linarith
  from binade_bounds [OF this] n have "(2::rat) powi n < 2 powi (binade a + 1)" by simp
  from powi_less_exp [OF this] show ?thesis by simp
qed

lemma round_half_even_bounds:
  "of_int (round_half_even q) \<le> q + 1 / 2 \<and> q - 1 / 2 \<le> of_int (round_half_even q)"
proof -
  have f: "of_int \<lfloor>q\<rfloor> \<le> q" "q < of_int \<lfloor>q\<rfloor> + 1" by linarith+
  consider "q - of_int \<lfloor>q\<rfloor> < 1 / 2" | "1 / 2 < q - of_int \<lfloor>q\<rfloor>" | "q - of_int \<lfloor>q\<rfloor> = 1 / 2"
    by linarith
  then show ?thesis
  proof cases
    case 1
    then have "round_half_even q = \<lfloor>q\<rfloor>" by (simp add: round_half_even_def)
    with f 1 show ?thesis by linarith
  next
    case 2
    then have "round_half_even q = \<lfloor>q\<rfloor> + 1" by (simp add: round_half_even_def)
    with f 2 show ?thesis by linarith
  next
    case 3
    then have "round_half_even q = \<lfloor>q\<rfloor> \<or> round_half_even q = \<lfloor>q\<rfloor> + 1"
      by (simp add: round_half_even_def)
    with f 3 show ?thesis by (elim disjE) linarith+
  qed
qed

lemma round_half_even_nonneg: "0 \<le> q \<Longrightarrow> 0 \<le> round_half_even q"
  by (auto simp: round_half_even_def)

lemma round_half_even_of_int [simp]: "round_half_even (of_int n) = n"
  by (simp add: round_half_even_def)

lemma ulp_pos: "0 < ulp a"
  by (simp add: ulp_def)

lemma round_to_double_upper:
  assumes "0 < x"
  shows "0 \<le> round_to_double x \<and> round_to_double x \<le> x + ulp x / 2"
proof -
  let ?n = "round_half_even (x / ulp x)"
  have r: "round_to_double x = of_int ?n * ulp x"
    using assms by (simp add: round_to_double_def)
  have "0 \<le> x / ulp x" using assms ulp_pos [of x] by simp
  then have n0: "0 \<le> ?n" by (rule round_half_even_nonneg)
  from round_half_even_bounds [of "x / ulp x"]
  have "of_int ?n \<le> x / ulp x + 1 / 2" by simp
  then have "of_int ?n * ulp x \<le> (x / ulp x + 1 / 2) * ulp x"
    using ulp_pos [of x] by (intro mult_right_mono) simp_all
  also have "\<dots> = x + ulp x / 2"
    using ulp_pos [of x] by (simp add: field_simps)
  finally show ?thesis using n0 ulp_pos [of x] r by simp
qed

lemma ulp_below_16: "0 < x \<Longrightarrow> x < 16 \<Longrightarrow> ulp x \<le> 1 / 2 ^ 49"
proof -
  assume x: "0 < x" "x < 16"
  from x(2) have "x < 2 powi 4" by simp
  with x(1) have "binade x < 4" by (rule binade_less)
  then have "max (binade x) (- 1022) - 52 \<le> - 49" by simp
  then have "(2::rat) powi (max (binade x) (- 1022) - 52) \<le> 2 powi (- 49)"
    by (intro power_int_increasing) simp_all
  moreover have "(2::rat) powi (- 49) = 1 / 2 ^ 49"
    by (simp add: inverse_eq_divide)
  ultimately show ?thesis by (simp only: ulp_def)
qed

text \<open>A double below 1 is at most \<open>1 - 2 ^ - 53\<close>, so ten times it, rounded, is still
  below 10.\<close>

lemma double_below_one:
  assumes "0 \<le> r" and "r < 1" and "round_to_double r = r"
  shows "r \<le> 1 - 1 / 2 ^ 53"
proof (cases "r < 1 / 2")
  case True
  then show ?thesis by simp
next
  case False
  then have half: "2 powi (- 1) \<le> r" by (simp add: inverse_eq_divide)
  from False have pos: "0 < r" by simp
  have "binade r < 0" using binade_less [of r 0] pos assms(2) by simp
  moreover have "- 1 \<le> binade r" using half by (rule binade_ge)
  ultimately have b: "binade r = - 1" by simp
  have u: "ulp r = 1 / 2 ^ 53" by (simp add: ulp_def b inverse_eq_divide)
  define n where "n = round_half_even (r / ulp r)"
  have rd: "round_to_double r = of_int n * ulp r"
    using pos by (simp add: round_to_double_def n_def)
  have "r = round_to_double r" by (simp only: assms(3))
  also have "\<dots> = of_int n * ulp r" by (fact rd)
  also have "\<dots> = of_int n / 2 ^ 53" by (simp only: u) simp
  finally have r: "r = of_int n / 2 ^ 53" .
  have "of_int n / 2 ^ 53 < (1::rat)" using assms(2) by (simp only: r [symmetric])
  then have "(of_int n :: rat) < 2 ^ 53" by (simp add: field_simps)
  then have "(of_int n :: rat) < of_int (2 ^ 53)" by simp
  then have "n < 2 ^ 53" by (simp only: of_int_less_iff)
  then have "n \<le> 2 ^ 53 - 1" by simp
  then have "(of_int n :: rat) \<le> of_int (2 ^ 53 - 1)" by (simp only: of_int_le_iff)
  then have "(of_int n :: rat) \<le> 2 ^ 53 - 1" by simp
  then have "(of_int n :: rat) / 2 ^ 53 \<le> (2 ^ 53 - 1) / 2 ^ 53"
    by (intro divide_right_mono) simp_all
  then have "r \<le> (2 ^ 53 - 1) / 2 ^ 53" by (simp only: r [symmetric])
  then show ?thesis by (simp add: field_simps)
qed

lemma random_bit_range:
  assumes "0 \<le> r" and "r < 1" and "round_to_double r = r"
  shows "1 \<le> random_bit r \<and> random_bit r \<le> 10"
proof (cases "r = 0")
  case True
  then show ?thesis by (simp add: random_bit_def round_to_double_def)
next
  case False
  with assms(1) have pos: "0 < r * 10" by simp
  from double_below_one [OF assms] have le: "r * 10 \<le> 10 - 10 / 2 ^ 53" by simp
  then have lt16: "r * 10 < 16" by simp
  from round_to_double_upper [OF pos] ulp_below_16 [OF pos lt16]
  have "0 \<le> round_to_double (r * 10)" and "round_to_double (r * 10) \<le> r * 10 + (1 / 2 ^ 49) / 2"
    by simp_all
  with le have "0 \<le> round_to_double (r * 10)" and "round_to_double (r * 10) < 10"
    by simp_all
  then show ?thesis
    by (simp add: random_bit_def floor_less_iff le_floor_iff)
qed

lemma floor_rat_numeral_div: "\<lfloor>(numeral a :: rat) / numeral b\<rfloor> = numeral a div numeral b"
  using floor_divide_of_int_eq [of "numeral a" "numeral b", where ?'a = rat] by simp

lemmas double_defs =
  round_to_double_def ulp_def binade_def floor_log2.simps round_half_even_def
  inverse_eq_divide floor_rat_numeral_div

text \<open>Row ids below \<open>2 ^ 53\<close> are numbers as they are.\<close>

lemma Number_exact:
  assumes "0 \<le> n" and "n < 2 ^ 53"
  shows "Number n = n"
proof (cases "n = 0")
  case True
  then show ?thesis by (simp add: Number_def round_to_double_def)
next
  case False
  define x :: rat where "x = of_int n"
  from False assms(1) have "1 \<le> n" by simp
  then have one: "(1::rat) \<le> x" by (simp add: x_def)
  then have pos: "0 < x" by simp
  from assms(2) have "(of_int n :: rat) < of_int (2 ^ 53)" by (simp only: of_int_less_iff)
  then have "x < 2 powi 53" by (simp add: x_def)
  with pos have hi: "binade x < 53" by (rule binade_less)
  from one have "2 powi 0 \<le> x" by simp
  then have lo: "0 \<le> binade x" by (rule binade_ge)
  define k where "k = nat (52 - binade x)"
  from hi lo have e: "max (binade x) (- 1022) - 52 = - int k" by (simp add: k_def)
  have u: "ulp x = 1 / 2 ^ k"
    unfolding ulp_def e by (simp add: power_int_minus inverse_eq_divide)
  have "x / ulp x = of_int (n * 2 ^ k)" by (simp only: u) (simp add: x_def)
  then have "round_half_even (x / ulp x) = n * 2 ^ k" by (simp only: round_half_even_of_int)
  then have "round_to_double x = of_int (n * 2 ^ k) * (1 / 2 ^ k)"
    using pos by (simp add: round_to_double_def u)
  also have "\<dots> = of_int n" by simp
  finally show ?thesis by (simp add: Number_def x_def)
qed

text \<open>The first id that is not: \<open>2 ^ 53 + 1\<close> becomes \<open>2 ^ 53\<close>.\<close>

lemma Number_rounds: "Number 9007199254740993 = 9007199254740992"
  by (simp add: Number_def double_defs)

text \<open>The definitions unfolded to evaluate the handlers on the example states.\<close>

lemmas example_defs =
  example_server_def example_db_def no_fault_def

subsection \<open>The example random numbers\<close>

lemma tenths_bits: "map random_bit tenths = [1, 2, 3, 4, 5, 6, 7, 8, 9, 10]"
  by (simp add: tenths_def random_bit_def double_defs)

lemma tenths_doubles: "list_all (\<lambda>r. 0 \<le> r \<and> r < 1 \<and> round_to_double r = r) tenths"
  by (simp add: tenths_def double_defs)

lemma length_tenths: "length tenths = 10"
  by (simp add: tenths_def)

lemma upto_ten_nth: "k < 10 \<Longrightarrow> [1, 2, 3, 4, 5, 6, 7, 8, 9, 10 :: int] ! k = int k + 1"
proof -
  assume "k < 10"
  then have "k \<in> {0, 1, 2, 3, 4, 5, 6, 7, 8, 9}" by auto
  then show ?thesis by auto
qed

lemma random_bit_example: "random_bit (example_rnd i) = int ((i + 3) mod 10) + 1"
proof -
  let ?k = "(i + 3) mod 10"
  have k: "?k < 10" by simp
  then have "random_bit (tenths ! ?k) = map random_bit tenths ! ?k"
    by (simp add: length_tenths)
  also have "\<dots> = int ?k + 1" unfolding tenths_bits using k by (rule upto_ten_nth)
  finally show ?thesis by (simp add: example_rnd_def)
qed

lemma example_rnd_source: "random_source example_rnd"
proof -
  have "0 \<le> example_rnd i \<and> example_rnd i < 1 \<and> round_to_double (example_rnd i) = example_rnd i"
    for i
  proof -
    have "(i + 3) mod 10 < length tenths" by (simp add: length_tenths)
    with tenths_doubles show ?thesis
      unfolding example_rnd_def list_all_length by blast
  qed
  then show ?thesis by (simp add: random_source_def)
qed

lemma random_source_bit:
  "random_source rnd \<Longrightarrow> 1 \<le> random_bit (rnd i) \<and> random_bit (rnd i) \<le> 10"
  by (simp add: random_source_def random_bit_range)

lemmas draw_defs =
  generateUniqueBits_def draw_loop.simps random_bit_example MAX_ATTEMPTS_def coin_key_def
  combinationKey_def number_to_string_def decimal.simps digit_char_def

lemmas handler_defs =
  generate_POST_def generate_tx_def buy_POST_def buy_def buy_tx_def next_rowid_def Number_exact

subsection \<open>The draw loop\<close>

text \<open>A combination the loop returns has a key outside the set it was given.\<close>

lemma draw_loop_fresh:
  "draw_loop E rnd n = Inr (b1, b2, b3) \<Longrightarrow> combinationKey b1 b2 b3 \<notin> E"
proof (induction E rnd n rule: draw_loop.induct)
  case (1 E rnd n)
  then show ?case
    by (subst (asm) (2) draw_loop.simps) (auto split: if_splits)
qed

lemma draw_loop_range:
  "random_source rnd \<Longrightarrow> draw_loop E rnd n = Inr (b1, b2, b3) \<Longrightarrow>
     1 \<le> b1 \<and> b1 \<le> 10 \<and> 1 \<le> b2 \<and> b2 \<le> 10 \<and> 1 \<le> b3 \<and> b3 \<le> 10"
proof (induction E rnd n rule: draw_loop.induct)
  case (1 E rnd n)
  then show ?case
    by (subst (asm) (2) draw_loop.simps)
       (auto split: if_splits simp: random_source_bit)
qed

text \<open>When the set holds the key of every combination, each draw is rejected, and the
  loop ends by throwing once the counter passes \<open>MAX_ATTEMPTS\<close>.\<close>

lemma draw_loop_exhausted:
  "random_source rnd \<Longrightarrow>
   \<forall>b1\<in>{1..10}. \<forall>b2\<in>{1..10}. \<forall>b3\<in>{1..10}. combinationKey b1 b2 b3 \<in> E \<Longrightarrow>
   draw_loop E rnd n = Inl exhausted_message"
proof (induction E rnd n rule: draw_loop.induct)
  case (1 E rnd n)
  show ?case
  proof (cases "Suc n > MAX_ATTEMPTS")
    case True
    then show ?thesis by (subst draw_loop.simps) simp
  next
    case False
    have "combinationKey (random_bit (rnd (3 * n))) (random_bit (rnd (3 * n + 1)))
            (random_bit (rnd (3 * n + 2))) \<in> E"
      using 1(2,3) by (simp add: random_source_bit)
    with False 1 show ?thesis by (subst draw_loop.simps) simp
  qed
qed

lemma key_of_triple: "triple c = (b1, b2, b3) \<Longrightarrow> coin_key c = combinationKey b1 b2 b3"
  by (simp add: triple_def coin_key_def)

lemma fresh_key_fresh_triple:
  "combinationKey b1 b2 b3 \<notin> set (map coin_key cs) \<Longrightarrow> (b1, b2, b3) \<notin> set (map triple cs)"
proof
  assume fresh: "combinationKey b1 b2 b3 \<notin> set (map coin_key cs)"
    and "(b1, b2, b3) \<in> set (map triple cs)"
  then obtain c where c: "c \<in> set cs" "triple c = (b1, b2, b3)" by auto
  from c(2) have "coin_key c = combinationKey b1 b2 b3" by (rule key_of_triple)
  with c(1) have "combinationKey b1 b2 b3 \<in> set (map coin_key cs)" by force
  with fresh show False by contradiction
qed

lemma generateUniqueBits_fresh:
  "generateUniqueBits d rnd fault = Inr (b1, b2, b3) \<Longrightarrow> (b1, b2, b3) \<notin> set (map triple (coins d))"
proof -
  assume "generateUniqueBits d rnd fault = Inr (b1, b2, b3)"
  then have "draw_loop (set (map coin_key (coins d))) rnd 0 = Inr (b1, b2, b3)"
    by (simp add: generateUniqueBits_def split: option.splits)
  then have "combinationKey b1 b2 b3 \<notin> set (map coin_key (coins d))"
    by (rule draw_loop_fresh)
  then show ?thesis by (rule fresh_key_fresh_triple)
qed

lemma generateUniqueBits_range:
  "random_source rnd \<Longrightarrow> generateUniqueBits d rnd fault = Inr (b1, b2, b3) \<Longrightarrow>
     1 \<le> b1 \<and> b1 \<le> 10 \<and> 1 \<le> b2 \<and> b2 \<le> 10 \<and> 1 \<le> b3 \<and> b3 \<le> 10"
  by (auto simp: generateUniqueBits_def split: option.splits dest: draw_loop_range)

text \<open>1000 coins with pairwise different combinations, all in the space, use up the
  space: there are only 1000 combinations.\<close>

lemma full_occupancy:
  assumes len: "length cs = 1000" and dist: "distinct (map triple cs)"
    and rng: "list_all in_space cs"
  shows "set (map triple cs) = {1..10} \<times> {1..10} \<times> {1..10}"
proof (rule card_subset_eq)
  show "finite ({1..10::int} \<times> {1..10::int} \<times> {1..10::int})" by simp
  show "set (map triple cs) \<subseteq> {1..10} \<times> {1..10} \<times> {1..10}"
    using rng by (auto simp: triple_def in_space_def list_all_iff)
  have "card (set (map triple cs)) = 1000"
    using distinct_card [OF dist] len by simp
  then show "card (set (map triple cs)) = card ({1..10::int} \<times> {1..10::int} \<times> {1..10::int})"
    by simp
qed

lemma full_occupancy_keys:
  assumes "length cs = 1000" "distinct (map triple cs)" "list_all in_space cs"
  shows "\<forall>b1\<in>{1..10}. \<forall>b2\<in>{1..10}. \<forall>b3\<in>{1..10}. combinationKey b1 b2 b3 \<in> set (map coin_key cs)"
proof (intro ballI)
  fix b1 b2 b3 :: int
  assume "b1 \<in> {1..10}" "b2 \<in> {1..10}" "b3 \<in> {1..10}"
  then have "(b1, b2, b3) \<in> set (map triple cs)"
    using full_occupancy [OF assms] by simp
  then obtain c where "c \<in> set cs" "triple c = (b1, b2, b3)" by auto
  then show "combinationKey b1 b2 b3 \<in> set (map coin_key cs)"
    using key_of_triple by force
qed

subsection \<open>What the handlers return\<close>

text \<open>A response with status 200 fixes the request and the new state; any other response
  leaves the server as it was.\<close>

lemma find_map_same_id:
  "(\<And>c. coin_id (f c) = coin_id c) \<Longrightarrow>
     find (\<lambda>c. coin_id c = i) (map f cs) = map_option f (find (\<lambda>c. coin_id c = i) cs)"
  by (induction cs) simp_all

lemma generate_POST_success:
  assumes "generate_POST srv authz data_value now rnd fault = (r, srv')" and "status r = 200"
  shows "\<exists>u v b1 b2 b3. authz = UserData u \<and> data_value = Num v \<and> \<not> le_zero v \<and>
           generateUniqueBits (db srv) rnd fault = Inr (b1, b2, b3) \<and>
           r = Response 200 (Minted ''Coin generated successfully''
                 (Number (next_rowid (map coin_id (coins (db srv))))) b1 b2 b3 v) \<and>
           srv' = srv\<lparr>db := (db srv)
                    \<lparr>coins := coins (db srv) @
                       [\<lparr>coin_id = next_rowid (map coin_id (coins (db srv))),
                         bit1 = b1, bit2 = b2, bit3 = b3, coin_value = v, client_id = Some u\<rparr>],
                     transactions := transactions (db srv) @
                       [\<lparr>tx_id = next_rowid (map tx_id (transactions (db srv))),
                         tx_coin_id = Number (next_rowid (map coin_id (coins (db srv)))),
                         buyer_id = u, seller_id = None, amount = v, transaction_date = now\<rparr>]\<rparr>,
                  transactionCache := Map.empty, coinCache := Map.empty\<rparr>"
  using assms
  by (cases data_value)
     (auto simp: generate_POST_def generate_tx_def Let_def
           split: auth.splits sum.splits prod.splits option.splits if_splits)

lemma generate_POST_failure:
  "status (fst (generate_POST srv authz v now rnd fault)) \<noteq> 200 \<Longrightarrow>
     snd (generate_POST srv authz v now rnd fault) = srv"
  by (auto simp: generate_POST_def split: auth.splits sum.splits prod.splits if_splits)

lemma buy_POST_success:
  assumes "buy_POST srv authz data_coin_id now fault = (r, srv')" and "status r = 200"
  shows "\<exists>u i c. authz = UserData u \<and> data_coin_id = Some i \<and> i \<noteq> 0 \<and>
           find (\<lambda>c. coin_id c = i) (coins (db srv)) = Some c \<and> client_id c = None \<and>
           r = Response 200 (Purchased ''Coin purchased successfully'' i) \<and>
           srv' = srv\<lparr>db := (db srv)
                    \<lparr>coins := map (\<lambda>r. if coin_id r = i then r\<lparr>client_id := Some u\<rparr> else r)
                                  (coins (db srv)),
                     transactions := transactions (db srv) @
                       [\<lparr>tx_id = next_rowid (map tx_id (transactions (db srv))),
                         tx_coin_id = i, buyer_id = u, seller_id = None,
                         amount = coin_value c, transaction_date = now\<rparr>]\<rparr>,
                  transactionCache := Map.empty, coinCache := Map.empty\<rparr>"
  using assms
  by (auto simp: buy_POST_def buy_def buy_tx_def Let_def
           split: auth.splits buy_outcome.splits option.splits if_splits)

lemma buy_POST_failure:
  "status (fst (buy_POST srv authz i now fault)) \<noteq> 200 \<Longrightarrow>
     snd (buy_POST srv authz i now fault) = srv"
  by (auto simp: buy_POST_def buy_def buy_tx_def Let_def
           split: auth.splits buy_outcome.splits option.splits if_splits)

text \<open>The purchase itself: what it answers when the lookup finds no coin or a coin with
  an owner, and what a purchase that succeeded leaves behind.\<close>

lemma buy_POST_valid:
  "i \<noteq> 0 \<Longrightarrow> buy_POST srv (UserData u) (Some i) now fault = buy srv u i now fault"
  by (simp add: buy_POST_def)

lemma buy_not_found:
  assumes "fault SelectCoin = None" and "i \<notin> set (map coin_id (coins (db srv)))"
  shows "buy srv u i now fault = (NotFoundError, srv)"
proof -
  from assms(2) have "find (\<lambda>c. coin_id c = i) (coins (db srv)) = None"
    by (auto simp: find_None_iff)
  with assms(1) show ?thesis
    by (simp add: buy_def buy_tx_def NotFoundError_def)
qed

lemma buy_already_owned:
  assumes "fault SelectCoin = None"
    and "find (\<lambda>c. coin_id c = i) (coins (db srv)) = Some c" and "client_id c \<noteq> None"
  shows "buy srv u i now fault = (AlreadyOwnedError, srv)"
  using assms by (auto simp add: buy_def buy_tx_def AlreadyOwnedError_def)

lemma buy_success:
  assumes "buy srv u i now fault = (r, srv')" and "status r = 200"
  shows "\<exists>c. find (\<lambda>c. coin_id c = i) (coins (db srv)) = Some c \<and> client_id c = None \<and>
           r = Response 200 (Purchased ''Coin purchased successfully'' i) \<and>
           srv' = srv\<lparr>db := (db srv)
                    \<lparr>coins := map (\<lambda>r. if coin_id r = i then r\<lparr>client_id := Some u\<rparr> else r)
                                  (coins (db srv)),
                     transactions := transactions (db srv) @
                       [\<lparr>tx_id = next_rowid (map tx_id (transactions (db srv))),
                         tx_coin_id = i, buyer_id = u, seller_id = None,
                         amount = coin_value c, transaction_date = now\<rparr>]\<rparr>,
                  transactionCache := Map.empty, coinCache := Map.empty\<rparr>"
  using assms
  by (auto simp: buy_def buy_tx_def Let_def
           split: buy_outcome.splits option.splits if_splits)

lemma buy_success_owned:
  assumes "buy srv u i now fault = (r, srv')" and "status r = 200"
  shows "\<exists>c. find (\<lambda>c. coin_id c = i) (coins (db srv')) = Some c \<and> client_id c = Some u"
proof -
  from buy_success [OF assms] obtain c where f: "find (\<lambda>c. coin_id c = i) (coins (db srv)) = Some c"
    and srv': "srv' = srv\<lparr>db := (db srv)
                    \<lparr>coins := map (\<lambda>r. if coin_id r = i then r\<lparr>client_id := Some u\<rparr> else r)
                                  (coins (db srv)),
                     transactions := transactions (db srv) @
                       [\<lparr>tx_id = next_rowid (map tx_id (transactions (db srv))),
                         tx_coin_id = i, buyer_id = u, seller_id = None,
                         amount = coin_value c, transaction_date = now\<rparr>]\<rparr>,
                  transactionCache := Map.empty, coinCache := Map.empty\<rparr>"
    by blast
  from srv' have cs: "coins (db srv') =
           map (\<lambda>r. if coin_id r = i then r\<lparr>client_id := Some u\<rparr> else r) (coins (db srv))"
    by simp
  from f have "coin_id c = i" by (auto simp: find_Some_iff)
  with f have "find (\<lambda>c. coin_id c = i)
          (map (\<lambda>r. if coin_id r = i then r\<lparr>client_id := Some u\<rparr> else r) (coins (db srv)))
        = Some (c\<lparr>client_id := Some u\<rparr>)"
    by (subst find_map_same_id) simp_all
  with cs show ?thesis by simp
qed

text \<open>The requester enters the outcome of a purchase only as the id written as owner
  and buyer.\<close>

lemma buy_POST_owner_shape:
  "buy_POST srv (UserData u) i now fault =
     (fst (buy_POST srv (UserData 0) i now fault),
      if status (fst (buy_POST srv (UserData 0) i now fault)) = 200
      then srv\<lparr>db := (db srv)
             \<lparr>coins := map (\<lambda>r. if coin_id r = the i then r\<lparr>client_id := Some u\<rparr> else r)
                           (coins (db srv)),
              transactions := transactions (db srv) @
                [\<lparr>tx_id = next_rowid (map tx_id (transactions (db srv))),
                  tx_coin_id = the i, buyer_id = u, seller_id = None,
                  amount = coin_value (the (find (\<lambda>c. coin_id c = the i) (coins (db srv)))),
                  transaction_date = now\<rparr>]\<rparr>,
            transactionCache := Map.empty, coinCache := Map.empty\<rparr>
      else srv)"
  by (auto simp: buy_POST_def buy_def buy_tx_def Let_def
           split: buy_outcome.splits option.splits if_splits)

subsection \<open>Facts about the example states\<close>

lemma digits_inj:
  fixes n m :: nat
  assumes "n div 100 = m div 100" and "n div 10 mod 10 = m div 10 mod 10" and "n mod 10 = m mod 10"
  shows "n = m"
proof -
  have "n div 10 div 10 = m div 10 div 10"
    using assms(1) div_mult2_eq [of n 10 10] div_mult2_eq [of m 10 10] by simp
  with assms(2) have "n div 10 = m div 10"
    by (metis div_mult_mod_eq)
  with assms(3) show ?thesis
    by (metis div_mult_mod_eq)
qed

lemma full_server_length: "length (coins (db full_server)) = 1000"
  by (simp add: full_server_def full_coins_def)

lemma full_server_unique: "unique_triples (db full_server)"
  by (auto simp add: full_server_def full_coins_def unique_triples_def distinct_map triple_def
        inj_on_def intro: digits_inj)

lemma full_server_in_space: "list_all in_space (coins (db full_server))"
  by (auto simp add: full_server_def full_coins_def in_space_def list_all_iff)

subsection \<open>Steps of a run\<close>

text \<open>A request leaves the server alone, appends one coin whose combination is new, or
  sets the owner of the rows with one id.\<close>

lemma handle_cases:
  "snd (handle srv req) = srv \<or>
   (\<exists>u v b1 b2 b3 i t. (b1, b2, b3) \<notin> set (map triple (coins (db srv))) \<and>
      coins (db (snd (handle srv req))) = coins (db srv) @
        [\<lparr>coin_id = i, bit1 = b1, bit2 = b2, bit3 = b3, coin_value = v, client_id = Some u\<rparr>]) \<or>
   (\<exists>u i. coins (db (snd (handle srv req))) =
        map (\<lambda>r. if coin_id r = i then r\<lparr>client_id := Some u\<rparr> else r) (coins (db srv)))"
proof (cases req)
  case (Generate authz v now rnd fault)
  show ?thesis
  proof (cases "status (fst (generate_POST srv authz v now rnd fault)) = 200")
    case True
    obtain r srv' where eq: "generate_POST srv authz v now rnd fault = (r, srv')"
      by (cases "generate_POST srv authz v now rnd fault")
    with True have "status r = 200" by simp
    from generate_POST_success [OF eq this] generateUniqueBits_fresh
    show ?thesis using Generate eq by fastforce
  next
    case False
    then show ?thesis using Generate generate_POST_failure by simp
  qed
next
  case (Buy authz i now fault)
  show ?thesis
  proof (cases "status (fst (buy_POST srv authz i now fault)) = 200")
    case True
    obtain r srv' where eq: "buy_POST srv authz i now fault = (r, srv')"
      by (cases "buy_POST srv authz i now fault")
    with True have "status r = 200" by simp
    from buy_POST_success [OF eq this]
    show ?thesis using Buy eq by fastforce
  next
    case False
    then show ?thesis using Buy buy_POST_failure by simp
  qed
qed

lemma triple_set_owner:
  "triple \<circ> (\<lambda>r. if coin_id r = i then r\<lparr>client_id := Some u\<rparr> else r) = triple"
  by (rule ext) (simp add: triple_def)

lemma handle_unique:
  "unique_triples (db srv) \<Longrightarrow> unique_triples (db (snd (handle srv req)))"
  using handle_cases [of srv req]
  by (auto simp: unique_triples_def triple_set_owner) (auto simp: triple_def)

lemma handle_prefix:
  "prefix (map triple (coins (db srv))) (map triple (coins (db (snd (handle srv req)))))"
  using handle_cases [of srv req]
  by (auto simp: triple_set_owner)

lemma run_unique: "unique_triples (db srv) \<Longrightarrow> unique_triples (db (run srv reqs))"
  unfolding run_def
  by (induction reqs arbitrary: srv) (simp_all add: handle_unique)

lemma run_prefix: "prefix (map triple (coins (db srv))) (map triple (coins (db (run srv reqs))))"
  unfolding run_def
proof (induction reqs arbitrary: srv)
  case Nil
  then show ?case by simp
next
  case (Cons r reqs)
  from handle_prefix [of srv r] Cons [of "snd (handle srv r)"]
  show ?case by (auto intro: prefix_order.trans)
qed

subsection \<open>Uniqueness of combinations\<close>

text \<open>
  Claim C1. Starting from a store whose coins have pairwise different combinations
  \<open>(bit1, bit2, bit3)\<close>, after any sequence of \<^verbatim>\<open>generate\<close> and \<^verbatim>\<open>buy\<close> requests the
  combinations are still pairwise different; the combinations that were there are still
  there, in the same rows (no request deletes a coin); and in the state reached, a
  combination that \<^verbatim>\<open>generateUniqueBits\<close> returns is not the combination of any coin
  row, sold or not.
\<close>

theorem triples_unique_in_every_reachable_state:
  assumes "unique_triples (db srv)"
  shows "unique_triples (db (run srv reqs)) \<and>
         prefix (map triple (coins (db srv))) (map triple (coins (db (run srv reqs)))) \<and>
         (\<forall>rnd fault b1 b2 b3.
            generateUniqueBits (db (run srv reqs)) rnd fault = Inr (b1, b2, b3) \<longrightarrow>
            (b1, b2, b3) \<notin> set (map triple (coins (db (run srv reqs)))))"
  using assms run_unique run_prefix generateUniqueBits_fresh by blast


theorem triples_unique_in_every_reachable_state_witness:
  "unique_triples (db example_server) \<and>
   unique_triples (db (run example_server example_requests)) \<and>
   map triple (coins (db (run example_server example_requests)))
     = [(4, 5, 6), (1, 10, 3), (7, 8, 9), (10, 1, 2)] \<and>
   prefix (map triple (coins (db example_server)))
     (map triple (coins (db (run example_server example_requests)))) \<and>
   generateUniqueBits (db (run example_server example_requests)) example_rnd no_fault
     = Inr (3, 4, 5) \<and>
   (3, 4, 5) \<notin> set (map triple (coins (db (run example_server example_requests))))"
proof -
  have u: "unique_triples (db example_server)"
    by (simp add: unique_triples_def triple_def example_defs)
  have e: "map triple (coins (db (run example_server example_requests)))
     = [(4, 5, 6), (1, 10, 3), (7, 8, 9), (10, 1, 2)]"
    by (simp add: run_def example_requests_def handler_defs draw_defs example_defs triple_def)
  have g: "generateUniqueBits (db (run example_server example_requests)) example_rnd no_fault
     = Inr (3, 4, 5)"
    by (simp add: run_def example_requests_def handler_defs draw_defs example_defs)
  from triples_unique_in_every_reachable_state [OF u, of example_requests] u e g
  show ?thesis by blast
qed

subsection \<open>Minting\<close>

text \<open>
  Claim C2. For an authenticated requester \<open>u\<close> and a value \<open>v > 0\<close> (finite or
  \<^verbatim>\<open>Infinity\<close>), a \<^verbatim>\<open>generate\<close> that succeeds appends exactly one row to \<^verbatim>\<open>coins\<close>,
  with owner \<open>u\<close>, value \<open>v\<close> and each of the three bits in \<open>[1, 10]\<close>, and exactly one
  row to \<^verbatim>\<open>transactions\<close>, with buyer \<open>u\<close>, no seller and amount \<open>v\<close>; nothing else in
  the tables changes. The transaction is filed under \<^verbatim>\<open>Number(lastInsertRowid)\<close>, the
  new coin's row id \<open>rid\<close> as a number.
\<close>

theorem generate_creates_coin_and_transaction:
  assumes "random_source rnd" and "\<not> le_zero v"
    and "generate_POST srv (UserData u) (Num v) now rnd fault = (r, srv')" and "status r = 200"
  shows "\<exists>rid tid b1 b2 b3.
      1 \<le> b1 \<and> b1 \<le> 10 \<and> 1 \<le> b2 \<and> b2 \<le> 10 \<and> 1 \<le> b3 \<and> b3 \<le> 10 \<and>
      coins (db srv') = coins (db srv) @
        [\<lparr>coin_id = rid, bit1 = b1, bit2 = b2, bit3 = b3, coin_value = v, client_id = Some u\<rparr>] \<and>
      transactions (db srv') = transactions (db srv) @
        [\<lparr>tx_id = tid, tx_coin_id = Number rid, buyer_id = u, seller_id = None, amount = v,
          transaction_date = now\<rparr>] \<and>
      clients (db srv') = clients (db srv)"
proof -
  from generate_POST_success [OF assms(3,4)]
  obtain b1 b2 b3 where
    bits: "generateUniqueBits (db srv) rnd fault = Inr (b1, b2, b3)" and
    srv': "srv' = srv\<lparr>db := (db srv)
                    \<lparr>coins := coins (db srv) @
                       [\<lparr>coin_id = next_rowid (map coin_id (coins (db srv))),
                         bit1 = b1, bit2 = b2, bit3 = b3, coin_value = v, client_id = Some u\<rparr>],
                     transactions := transactions (db srv) @
                       [\<lparr>tx_id = next_rowid (map tx_id (transactions (db srv))),
                         tx_coin_id = Number (next_rowid (map coin_id (coins (db srv)))),
                         buyer_id = u, seller_id = None, amount = v, transaction_date = now\<rparr>]\<rparr>,
                  transactionCache := Map.empty, coinCache := Map.empty\<rparr>"
    by auto
  from generateUniqueBits_range [OF assms(1) bits]
  have rng: "1 \<le> b1 \<and> b1 \<le> 10 \<and> 1 \<le> b2 \<and> b2 \<le> 10 \<and> 1 \<le> b3 \<and> b3 \<le> 10" .
  from srv' have
    "coins (db srv') = coins (db srv) @
        [\<lparr>coin_id = next_rowid (map coin_id (coins (db srv))),
          bit1 = b1, bit2 = b2, bit3 = b3, coin_value = v, client_id = Some u\<rparr>]"
    "transactions (db srv') = transactions (db srv) @
        [\<lparr>tx_id = next_rowid (map tx_id (transactions (db srv))),
          tx_coin_id = Number (next_rowid (map coin_id (coins (db srv)))),
          buyer_id = u, seller_id = None, amount = v, transaction_date = now\<rparr>]"
    "clients (db srv') = clients (db srv)"
    by simp_all
  with rng show ?thesis by blast
qed

theorem generate_creates_coin_and_transaction_witness:
  "random_source example_rnd \<and> \<not> le_zero (Fin 250) \<and>
   status (fst (generate_POST example_server (UserData 2) (Num (Fin 250))
                  ''2025-03-02T09:30:00.000Z'' example_rnd no_fault)) = 200 \<and>
   coins (db (snd (generate_POST example_server (UserData 2) (Num (Fin 250))
                  ''2025-03-02T09:30:00.000Z'' example_rnd no_fault)))
     = coins (db example_server) @
         [\<lparr>coin_id = 3, bit1 = 7, bit2 = 8, bit3 = 9, coin_value = Fin 250,
           client_id = Some 2\<rparr>] \<and>
   (\<exists>rid tid b1 b2 b3.
      1 \<le> b1 \<and> b1 \<le> 10 \<and> 1 \<le> b2 \<and> b2 \<le> 10 \<and> 1 \<le> b3 \<and> b3 \<le> 10 \<and>
      coins (db (snd (generate_POST example_server (UserData 2) (Num (Fin 250))
                  ''2025-03-02T09:30:00.000Z'' example_rnd no_fault)))
        = coins (db example_server) @
            [\<lparr>coin_id = rid, bit1 = b1, bit2 = b2, bit3 = b3, coin_value = Fin 250,
              client_id = Some 2\<rparr>] \<and>
      transactions (db (snd (generate_POST example_server (UserData 2) (Num (Fin 250))
                  ''2025-03-02T09:30:00.000Z'' example_rnd no_fault)))
        = transactions (db example_server) @
            [\<lparr>tx_id = tid, tx_coin_id = Number rid, buyer_id = 2, seller_id = None,
              amount = Fin 250, transaction_date = ''2025-03-02T09:30:00.000Z''\<rparr>])"
proof -
  obtain r srv' where eq: "generate_POST example_server (UserData 2) (Num (Fin 250))
                  ''2025-03-02T09:30:00.000Z'' example_rnd no_fault = (r, srv')"
    by (cases "generate_POST example_server (UserData 2) (Num (Fin 250))
                  ''2025-03-02T09:30:00.000Z'' example_rnd no_fault")
  have st: "status (fst (generate_POST example_server (UserData 2) (Num (Fin 250))
                  ''2025-03-02T09:30:00.000Z'' example_rnd no_fault)) = 200"
    by (simp add: handler_defs draw_defs example_defs)
  have cs: "coins (db (snd (generate_POST example_server (UserData 2) (Num (Fin 250))
                  ''2025-03-02T09:30:00.000Z'' example_rnd no_fault)))
     = coins (db example_server) @
         [\<lparr>coin_id = 3, bit1 = 7, bit2 = 8, bit3 = 9, coin_value = Fin 250,
           client_id = Some 2\<rparr>]"
    by (simp add: handler_defs draw_defs example_defs)
  have pos: "\<not> le_zero (Fin 250)" by simp
  from st eq have "status r = 200" by simp
  from generate_creates_coin_and_transaction [OF example_rnd_source pos eq this]
  have "\<exists>rid tid b1 b2 b3.
      1 \<le> b1 \<and> b1 \<le> 10 \<and> 1 \<le> b2 \<and> b2 \<le> 10 \<and> 1 \<le> b3 \<and> b3 \<le> 10 \<and>
      coins (db srv') = coins (db example_server) @
            [\<lparr>coin_id = rid, bit1 = b1, bit2 = b2, bit3 = b3, coin_value = Fin 250,
              client_id = Some 2\<rparr>] \<and>
      transactions (db srv') = transactions (db example_server) @
            [\<lparr>tx_id = tid, tx_coin_id = Number rid, buyer_id = 2, seller_id = None,
              amount = Fin 250, transaction_date = ''2025-03-02T09:30:00.000Z''\<rparr>]"
    by blast
  with example_rnd_source pos st cs eq show ?thesis by simp
qed

subsection \<open>Buying\<close>

text \<open>
  Claim C3. For a coin \<open>c\<close> with id \<open>i\<close> that has no owner, a \<^verbatim>\<open>buy\<close> by an
  authenticated requester \<open>u2\<close> that succeeds sets the owner of \<open>c\<close> to \<open>u2\<close> and changes
  no other field of any coin row, and appends exactly one transaction with buyer
  \<open>u2\<close>, no seller, the coin's value as amount and the current time as date.
\<close>

theorem buy_transfers_unowned_coin:
  assumes "find (\<lambda>c. coin_id c = i) (coins (db srv)) = Some c" and "client_id c = None"
    and "buy_POST srv (UserData u2) (Some i) now fault = (r, srv')" and "status r = 200"
  shows "coins (db srv') =
           map (\<lambda>r. if coin_id r = i then r\<lparr>client_id := Some u2\<rparr> else r) (coins (db srv)) \<and>
         find (\<lambda>c. coin_id c = i) (coins (db srv')) = Some (c\<lparr>client_id := Some u2\<rparr>) \<and>
         transactions (db srv') = transactions (db srv) @
           [\<lparr>tx_id = next_rowid (map tx_id (transactions (db srv))), tx_coin_id = i,
             buyer_id = u2, seller_id = None, amount = coin_value c, transaction_date = now\<rparr>] \<and>
         clients (db srv') = clients (db srv)"
proof -
  from buy_POST_success [OF assms(3,4)] assms(1)
  have srv': "srv' = srv\<lparr>db := (db srv)
                    \<lparr>coins := map (\<lambda>r. if coin_id r = i then r\<lparr>client_id := Some u2\<rparr> else r)
                                  (coins (db srv)),
                     transactions := transactions (db srv) @
                       [\<lparr>tx_id = next_rowid (map tx_id (transactions (db srv))),
                         tx_coin_id = i, buyer_id = u2, seller_id = None,
                         amount = coin_value c, transaction_date = now\<rparr>]\<rparr>,
                  transactionCache := Map.empty, coinCache := Map.empty\<rparr>"
    by auto
  have "coin_id c = i"
    using assms(1) by (auto simp: find_Some_iff)
  then have "find (\<lambda>c. coin_id c = i)
          (map (\<lambda>r. if coin_id r = i then r\<lparr>client_id := Some u2\<rparr> else r) (coins (db srv)))
        = Some (c\<lparr>client_id := Some u2\<rparr>)"
    using assms(1) by (subst find_map_same_id) simp_all
  with srv' show ?thesis by simp
qed

theorem buy_transfers_unowned_coin_witness:
  "find (\<lambda>c. coin_id c = 2) (coins (db example_server))
     = Some \<lparr>coin_id = 2, bit1 = 1, bit2 = 10, bit3 = 3, coin_value = Fin 70, client_id = None\<rparr> \<and>
   status (fst (buy_POST example_server (UserData 2) (Some 2)
                  ''2025-03-02T09:31:00.000Z'' no_fault)) = 200 \<and>
   find (\<lambda>c. coin_id c = 2)
     (coins (db (snd (buy_POST example_server (UserData 2) (Some 2)
                  ''2025-03-02T09:31:00.000Z'' no_fault))))
     = Some \<lparr>coin_id = 2, bit1 = 1, bit2 = 10, bit3 = 3, coin_value = Fin 70, client_id = Some 2\<rparr> \<and>
   transactions (db (snd (buy_POST example_server (UserData 2) (Some 2)
                  ''2025-03-02T09:31:00.000Z'' no_fault)))
     = transactions (db example_server) @
         [\<lparr>tx_id = 2, tx_coin_id = 2, buyer_id = 2, seller_id = None, amount = Fin 70,
           transaction_date = ''2025-03-02T09:31:00.000Z''\<rparr>]"
proof -
  obtain r srv' where eq: "buy_POST example_server (UserData 2) (Some 2)
                  ''2025-03-02T09:31:00.000Z'' no_fault = (r, srv')"
    by (cases "buy_POST example_server (UserData 2) (Some 2)
                  ''2025-03-02T09:31:00.000Z'' no_fault")
  have f: "find (\<lambda>c. coin_id c = 2) (coins (db example_server))
     = Some \<lparr>coin_id = 2, bit1 = 1, bit2 = 10, bit3 = 3, coin_value = Fin 70, client_id = None\<rparr>"
    by (simp add: example_defs)
  have st: "status (fst (buy_POST example_server (UserData 2) (Some 2)
                  ''2025-03-02T09:31:00.000Z'' no_fault)) = 200"
    by (simp add: handler_defs example_defs)
  have k: "next_rowid (map tx_id (transactions (db example_server))) = 2"
    by (simp add: next_rowid_def example_defs)
  from st eq have "status r = 200" by simp
  from buy_transfers_unowned_coin [OF f _ eq this, THEN conjunct2] k f st eq
  show ?thesis by simp
qed

text \<open>
  Claim C4. When the lookup answers, \<^verbatim>\<open>buy(u, coinId)\<close> fails with the not-found error
  if no coin has the id, and with the already-owned error if the coin has an owner, and
  in both cases it returns the server unchanged: no transaction is appended and no coin
  is modified. So after a purchase of a coin that succeeded, a second \<^verbatim>\<open>buy\<close> of it, by
  anyone, fails with the already-owned error and changes nothing. The handler passes
  every non-zero id of a request on to this operation.
\<close>

theorem buy_failures_leave_store:
  assumes "fault SelectCoin = None"
  shows "(i \<notin> set (map coin_id (coins (db srv))) \<longrightarrow>
            buy srv u i now fault = (NotFoundError, srv)) \<and>
         (find (\<lambda>c. coin_id c = i) (coins (db srv)) = Some c \<and> client_id c \<noteq> None \<longrightarrow>
            buy srv u i now fault = (AlreadyOwnedError, srv)) \<and>
         (buy srv u i now fault = (r, srv') \<and> status r = 200 \<longrightarrow>
            buy srv' u' i now' fault = (AlreadyOwnedError, srv')) \<and>
         (i \<noteq> 0 \<longrightarrow> buy_POST srv (UserData u) (Some i) now fault = buy srv u i now fault)"
proof (intro conjI impI)
  assume "i \<notin> set (map coin_id (coins (db srv)))"
  with assms show "buy srv u i now fault = (NotFoundError, srv)"
    by (rule buy_not_found [where fault = fault])
next
  assume "find (\<lambda>c. coin_id c = i) (coins (db srv)) = Some c \<and> client_id c \<noteq> None"
  then show "buy srv u i now fault = (AlreadyOwnedError, srv)"
    using buy_already_owned [where fault = fault, OF assms] by blast
next
  assume "buy srv u i now fault = (r, srv') \<and> status r = 200"
  then obtain c' where "find (\<lambda>c. coin_id c = i) (coins (db srv')) = Some c'"
      "client_id c' = Some u"
    using buy_success_owned by blast
  then show "buy srv' u' i now' fault = (AlreadyOwnedError, srv')"
    using buy_already_owned [where fault = fault, OF assms] by simp
next
  assume "i \<noteq> 0"
  then show "buy_POST srv (UserData u) (Some i) now fault = buy srv u i now fault"
    by (rule buy_POST_valid)
qed

theorem buy_failures_leave_store_witness:
  "no_fault SelectCoin = None \<and>
   0 \<notin> set (map coin_id (coins (db example_server))) \<and>
   buy example_server 2 0 ''2025-03-02T09:31:00.000Z'' no_fault
     = (NotFoundError, example_server) \<and>
   99 \<notin> set (map coin_id (coins (db example_server))) \<and>
   buy_POST example_server (UserData 2) (Some 99) ''2025-03-02T09:31:00.000Z'' no_fault
     = (NotFoundError, example_server) \<and>
   find (\<lambda>c. coin_id c = 1) (coins (db example_server))
     = Some \<lparr>coin_id = 1, bit1 = 4, bit2 = 5, bit3 = 6, coin_value = Fin 500, client_id = Some 1\<rparr> \<and>
   buy_POST example_server (UserData 2) (Some 1) ''2025-03-02T09:31:00.000Z'' no_fault
     = (AlreadyOwnedError, example_server) \<and>
   status (fst (buy example_server 2 2 ''2025-03-02T09:31:00.000Z'' no_fault)) = 200 \<and>
   buy (snd (buy example_server 2 2 ''2025-03-02T09:31:00.000Z'' no_fault))
       1 2 ''2025-03-02T09:35:00.000Z'' no_fault
     = (AlreadyOwnedError,
        snd (buy example_server 2 2 ''2025-03-02T09:31:00.000Z'' no_fault))"
proof -
  have nf: "no_fault SelectCoin = None" by (simp add: no_fault_def)
  have z: "0 \<notin> set (map coin_id (coins (db example_server)))"
    by (simp add: example_defs)
  have a: "99 \<notin> set (map coin_id (coins (db example_server)))"
    by (simp add: example_defs)
  have f: "find (\<lambda>c. coin_id c = 1) (coins (db example_server))
     = Some \<lparr>coin_id = 1, bit1 = 4, bit2 = 5, bit3 = 6, coin_value = Fin 500, client_id = Some 1\<rparr>"
    by (simp add: example_defs)
  obtain r srv' where eq: "buy example_server 2 2 ''2025-03-02T09:31:00.000Z'' no_fault = (r, srv')"
    by (cases "buy example_server 2 2 ''2025-03-02T09:31:00.000Z'' no_fault")
  have st: "status (fst (buy example_server 2 2 ''2025-03-02T09:31:00.000Z'' no_fault)) = 200"
    by (simp add: handler_defs example_defs)
  with eq have r: "status r = 200" by simp
  note t = buy_failures_leave_store [where fault = no_fault, OF nf]
  have 1: "buy example_server 2 0 ''2025-03-02T09:31:00.000Z'' no_fault
     = (NotFoundError, example_server)"
    using t [where i = 0 and srv = example_server] z by simp
  have 2: "buy_POST example_server (UserData 2) (Some 99) ''2025-03-02T09:31:00.000Z'' no_fault
     = (NotFoundError, example_server)"
    using t [where i = 99 and srv = example_server and u = 2
                and now = "''2025-03-02T09:31:00.000Z''"] a by simp
  have 3: "buy_POST example_server (UserData 2) (Some 1) ''2025-03-02T09:31:00.000Z'' no_fault
     = (AlreadyOwnedError, example_server)"
    using t [where i = 1 and srv = example_server and u = 2
        and now = "''2025-03-02T09:31:00.000Z''"
        and c = "\<lparr>coin_id = 1, bit1 = 4, bit2 = 5, bit3 = 6, coin_value = Fin 500, client_id = Some 1\<rparr>"] f
    by simp
  have 4: "buy srv' 1 2 ''2025-03-02T09:35:00.000Z'' no_fault = (AlreadyOwnedError, srv')"
    using t [where i = 2 and srv = example_server and srv' = srv' and r = r and u = 2
                and now = "''2025-03-02T09:31:00.000Z''"] eq r by simp
  from nf z a f st 1 2 3 4 eq show ?thesis by simp
qed

text \<open>
  Claim C9. For a fixed server state, request body, clock and database behaviour, two
  authenticated requesters \<open>ua\<close> and \<open>ub\<close> get the same response from \<^verbatim>\<open>buy\<close>. When it
  is a failure both leave the server unchanged. When it is a success the two new states
  agree except for the user id: coin rows agree in every field but the owner, and where
  the owners differ they are \<open>ua\<close> and \<open>ub\<close>; the appended transactions agree in every
  field but the buyer, which is \<open>ua\<close> and \<open>ub\<close>; clients and caches agree. With a database
  that answers every call, any requester's \<^verbatim>\<open>buy\<close> of an unowned coin succeeds: there is
  no check of funds or of who is buying.
\<close>

theorem buy_outcome_independent_of_requester:
  "fst (buy_POST srv (UserData ua) i now fault) = fst (buy_POST srv (UserData ub) i now fault) \<and>
   (status (fst (buy_POST srv (UserData ua) i now fault)) \<noteq> 200 \<longrightarrow>
      snd (buy_POST srv (UserData ua) i now fault) = srv \<and>
      snd (buy_POST srv (UserData ub) i now fault) = srv) \<and>
   (status (fst (buy_POST srv (UserData ua) i now fault)) = 200 \<longrightarrow>
      list_all2 (\<lambda>a b. b = a\<lparr>client_id := client_id b\<rparr> \<and>
                   (client_id a = client_id b \<or> client_id a = Some ua \<and> client_id b = Some ub))
        (coins (db (snd (buy_POST srv (UserData ua) i now fault))))
        (coins (db (snd (buy_POST srv (UserData ub) i now fault)))) \<and>
      (\<exists>t. transactions (db (snd (buy_POST srv (UserData ua) i now fault)))
               = transactions (db srv) @ [t] \<and> buyer_id t = ua \<and>
            transactions (db (snd (buy_POST srv (UserData ub) i now fault)))
               = transactions (db srv) @ [t\<lparr>buyer_id := ub\<rparr>]) \<and>
      clients (db (snd (buy_POST srv (UserData ua) i now fault)))
        = clients (db (snd (buy_POST srv (UserData ub) i now fault))) \<and>
      transactionCache (snd (buy_POST srv (UserData ua) i now fault))
        = transactionCache (snd (buy_POST srv (UserData ub) i now fault)) \<and>
      coinCache (snd (buy_POST srv (UserData ua) i now fault))
        = coinCache (snd (buy_POST srv (UserData ub) i now fault))) \<and>
   (fault = no_fault \<and> i = Some k \<and> k \<noteq> 0 \<and>
    find (\<lambda>c. coin_id c = k) (coins (db srv)) = Some c \<and> client_id c = None \<longrightarrow>
      status (fst (buy_POST srv (UserData ua) i now fault)) = 200)"
proof (intro conjI impI)
  show "fst (buy_POST srv (UserData ua) i now fault) = fst (buy_POST srv (UserData ub) i now fault)"
    by (subst (1 2) buy_POST_owner_shape) simp
next
  assume "status (fst (buy_POST srv (UserData ua) i now fault)) \<noteq> 200"
  then have "status (fst (buy_POST srv (UserData 0) i now fault)) \<noteq> 200"
    by (subst (asm) buy_POST_owner_shape) simp
  then show "snd (buy_POST srv (UserData ua) i now fault) = srv"
    and "snd (buy_POST srv (UserData ub) i now fault) = srv"
    by (subst buy_POST_owner_shape, simp)+
next
  assume "status (fst (buy_POST srv (UserData ua) i now fault)) = 200"
  then have ok: "status (fst (buy_POST srv (UserData 0) i now fault)) = 200"
    by (subst (asm) buy_POST_owner_shape) simp
  show "list_all2 (\<lambda>a b. b = a\<lparr>client_id := client_id b\<rparr> \<and>
                   (client_id a = client_id b \<or> client_id a = Some ua \<and> client_id b = Some ub))
        (coins (db (snd (buy_POST srv (UserData ua) i now fault))))
        (coins (db (snd (buy_POST srv (UserData ub) i now fault))))"
    using ok by (subst (1 2) buy_POST_owner_shape) (simp add: list_all2_map1 list_all2_map2 list_all2_same)
  show "\<exists>t. transactions (db (snd (buy_POST srv (UserData ua) i now fault)))
               = transactions (db srv) @ [t] \<and> buyer_id t = ua \<and>
            transactions (db (snd (buy_POST srv (UserData ub) i now fault)))
               = transactions (db srv) @ [t\<lparr>buyer_id := ub\<rparr>]"
    using ok by (subst (1 2) buy_POST_owner_shape) simp
  show "clients (db (snd (buy_POST srv (UserData ua) i now fault)))
        = clients (db (snd (buy_POST srv (UserData ub) i now fault)))"
    using ok by (subst (1 2) buy_POST_owner_shape) simp
  show "transactionCache (snd (buy_POST srv (UserData ua) i now fault))
        = transactionCache (snd (buy_POST srv (UserData ub) i now fault))"
    using ok by (subst (1 2) buy_POST_owner_shape) simp
  show "coinCache (snd (buy_POST srv (UserData ua) i now fault))
        = coinCache (snd (buy_POST srv (UserData ub) i now fault))"
    using ok by (subst (1 2) buy_POST_owner_shape) simp
next
  assume "fault = no_fault \<and> i = Some k \<and> k \<noteq> 0 \<and>
    find (\<lambda>c. coin_id c = k) (coins (db srv)) = Some c \<and> client_id c = None"
  then show "status (fst (buy_POST srv (UserData ua) i now fault)) = 200"
    by (simp add: buy_POST_def buy_def buy_tx_def no_fault_def)
qed


theorem buy_outcome_independent_of_requester_witness:
  "status (fst (buy_POST example_server (UserData 1) (Some 2) ''2025-03-02T09:31:00.000Z'' no_fault))
     = 200 \<and>
   fst (buy_POST example_server (UserData 1) (Some 2) ''2025-03-02T09:31:00.000Z'' no_fault)
     = fst (buy_POST example_server (UserData 2) (Some 2) ''2025-03-02T09:31:00.000Z'' no_fault) \<and>
   map client_id (coins (db (snd (buy_POST example_server (UserData 1) (Some 2)
          ''2025-03-02T09:31:00.000Z'' no_fault)))) = [Some 1, Some 1] \<and>
   map client_id (coins (db (snd (buy_POST example_server (UserData 2) (Some 2)
          ''2025-03-02T09:31:00.000Z'' no_fault)))) = [Some 1, Some 2] \<and>
   transactionCache (snd (buy_POST example_server (UserData 1) (Some 2)
          ''2025-03-02T09:31:00.000Z'' no_fault))
     = transactionCache (snd (buy_POST example_server (UserData 2) (Some 2)
          ''2025-03-02T09:31:00.000Z'' no_fault)) \<and>
   status (fst (buy_POST example_server (UserData 1) (Some 1) ''2025-03-02T09:31:00.000Z'' no_fault))
     \<noteq> 200 \<and>
   fst (buy_POST example_server (UserData 1) (Some 1) ''2025-03-02T09:31:00.000Z'' no_fault)
     = fst (buy_POST example_server (UserData 2) (Some 1) ''2025-03-02T09:31:00.000Z'' no_fault) \<and>
   snd (buy_POST example_server (UserData 1) (Some 1) ''2025-03-02T09:31:00.000Z'' no_fault)
     = example_server \<and>
   snd (buy_POST example_server (UserData 2) (Some 1) ''2025-03-02T09:31:00.000Z'' no_fault)
     = example_server"
proof -
  have ok: "status (fst (buy_POST example_server (UserData 1) (Some 2)
      ''2025-03-02T09:31:00.000Z'' no_fault)) = 200"
    by (simp add: handler_defs example_defs)
  have no: "status (fst (buy_POST example_server (UserData 1) (Some 1)
      ''2025-03-02T09:31:00.000Z'' no_fault)) \<noteq> 200"
    by (simp add: handler_defs example_defs)
  have c1: "map client_id (coins (db (snd (buy_POST example_server (UserData 1) (Some 2)
          ''2025-03-02T09:31:00.000Z'' no_fault)))) = [Some 1, Some 1]"
    by (simp add: handler_defs example_defs)
  have c2: "map client_id (coins (db (snd (buy_POST example_server (UserData 2) (Some 2)
          ''2025-03-02T09:31:00.000Z'' no_fault)))) = [Some 1, Some 2]"
    by (simp add: handler_defs example_defs)
  from ok no c1 c2
    buy_outcome_independent_of_requester [where srv = example_server and ua = 1 and ub = 2
      and i = "Some 2" and now = "''2025-03-02T09:31:00.000Z''" and fault = no_fault]
    buy_outcome_independent_of_requester [where srv = example_server and ua = 1 and ub = 2
      and i = "Some 1" and now = "''2025-03-02T09:31:00.000Z''" and fault = no_fault]
  show ?thesis by blast
qed

subsection \<open>The ownership timeline\<close>

text \<open>A new row id is the id of no row.\<close>

lemma fold_max_ge: "(x::int) \<le> fold max xs x \<and> (\<forall>y\<in>set xs. y \<le> fold max xs x)"
proof (induction xs arbitrary: x)
  case Nil
  then show ?case by simp
next
  case (Cons a xs)
  from Cons [of "max a x"]
  have "max a x \<le> fold max xs (max a x)" and "\<forall>y\<in>set xs. y \<le> fold max xs (max a x)"
    by simp_all
  then show ?case by auto
qed

lemma next_rowid_fresh: "next_rowid ids \<notin> set ids"
proof (cases ids)
  case Nil
  then show ?thesis by simp
next
  case (Cons x xs)
  show ?thesis
  proof
    assume "next_rowid ids \<in> set ids"
    then have "next_rowid ids \<le> fold max xs x" using Cons fold_max_ge [of x xs] by auto
    then show False using Cons by (simp add: next_rowid_def)
  qed
qed


lemma find_Some_id: "find (\<lambda>c. coin_id c = cid) cs = Some c \<Longrightarrow> coin_id c = cid \<and> cid \<in> set (map coin_id cs)"
  by (auto simp: find_Some_iff)







text \<open>The loop turns the first row into a \<open>Generated\<close> entry and each later row into a
  \<open>Transfer\<close> entry.\<close>

lemma timeline_loop_transfers:
  "timeline_loop txs h l False =
     (h @ map transfer_event txs, if txs = [] then l else Some (row_buyer_id (last txs)))"
  by (induction txs arbitrary: h l) simp_all

lemma timeline_loop_first:
  "timeline_loop (tx # txs) [] None True =
     (generated_event tx # map transfer_event txs, Some (row_buyer_id (last (tx # txs))))"
  by (simp add: timeline_loop_transfers)

lemma map_filter_all_Some:
  "\<forall>x\<in>set xs. f x \<noteq> None \<Longrightarrow> List.map_filter f xs = map (\<lambda>x. the (f x)) xs"
  by (induction xs) (auto simp: map_filter_simps)

lemma coin_transactions_subset: "set (coin_transactions d i) \<subseteq> set (transactions d)"
  by (auto simp: coin_transactions_def)

lemma coin_transactions_sorted: "sorted (map transaction_date (coin_transactions d i))"
  by (simp add: coin_transactions_def)

lemma join_clients_known:
  assumes "clients d (buyer_id t) \<noteq> None"
    and "case seller_id t of None \<Rightarrow> True | Some s \<Rightarrow> clients d s \<noteq> None"
  shows "\<exists>row. join_clients d t = Some row \<and> row_buyer_id row = buyer_id t \<and>
           row_seller_id row = seller_id t \<and>
           row_seller_name row = (case seller_id t of None \<Rightarrow> None | Some s \<Rightarrow> clients d s)"
  using assms by (auto simp: join_clients_def split: option.splits)

lemma history_query_known:
  assumes "parties_are_clients d"
  shows "history_query d i = map (\<lambda>t. the (join_clients d t)) (coin_transactions d i)"
  unfolding history_query_def
proof (rule map_filter_all_Some, rule ballI)
  fix t assume "t \<in> set (coin_transactions d i)"
  then have "t \<in> set (transactions d)" using coin_transactions_subset by blast
  with assms have "clients d (buyer_id t) \<noteq> None"
    by (auto simp: parties_are_clients_def list_all_iff)
  then show "join_clients d t \<noteq> None"
    by (auto simp: join_clients_def)
qed

lemma history_GET_events:
  assumes "history_GET d (Some i) = Response 200 (History j events)"
  shows "\<exists>c. find (\<lambda>c. coin_id c = i) (coins d) = Some c \<and> j = i \<and>
           events = (case history_query d i of
                       [] \<Rightarrow> [current_owner d c [] None]
                     | tx # txs \<Rightarrow>
                         (generated_event tx # map transfer_event txs) @
                         [current_owner d c (generated_event tx # map transfer_event txs)
                            (Some (row_buyer_id (last (tx # txs))))])"
  using assms
  by (auto simp: history_GET_def timeline_loop_transfers split: option.splits list.splits)

text \<open>Right after a mint the log of the new coin is the mint transaction, when the
  transactions refer to coins of the table and the new row id is a number as it is.\<close>

lemma mint_is_log_of_new_coin:
  assumes "transactions_of_coins (db srv)"
    and "generate_POST srv (UserData u) (Num v) now rnd fault = (r, srv')" and "status r = 200"
    and "rid = next_rowid (map coin_id (coins (db srv)))" and "0 \<le> rid" and "rid < 2 ^ 53"
  shows "filter (\<lambda>t. tx_coin_id t = rid) (transactions (db srv')) = [last (transactions (db srv'))]"
proof -
  from generate_POST_success [OF assms(2,3)] obtain new t where
    srv': "srv' = srv\<lparr>db := (db srv)\<lparr>coins := coins (db srv) @ [new],
                                     transactions := transactions (db srv) @ [t]\<rparr>,
                  transactionCache := Map.empty, coinCache := Map.empty\<rparr>"
    and t: "tx_coin_id t = Number rid"
    unfolding assms(4) by auto
  have fresh: "rid \<notin> set (map coin_id (coins (db srv)))"
    unfolding assms(4) by (rule next_rowid_fresh)
  have "tx_coin_id x \<noteq> rid" if "x \<in> set (transactions (db srv))" for x
  proof -
    from assms(1) that have "tx_coin_id x \<in> set (map coin_id (coins (db srv)))"
      by (simp add: transactions_of_coins_def list_all_iff)
    with fresh show ?thesis by metis
  qed
  then have "filter (\<lambda>t. tx_coin_id t = rid) (transactions (db srv)) = []"
    by (simp add: filter_empty_conv)
  moreover have "tx_coin_id t = rid"
    using t Number_exact [OF assms(5,6)] by simp
  ultimately show ?thesis using srv' by simp
qed



text \<open>
  Claim C7. Let every buyer and every non-null seller of a transaction be a client. In the
  timeline of a coin, for each transaction \<open>t\<close> of the coin after the first, in ascending
  order of \<^verbatim>\<open>transaction_date\<close>, the entry at the same position is a \<open>Transfer\<close> whose
  owner is the buyer of \<open>t\<close> and whose previous owner is the seller of \<open>t\<close>; the history
  modal shows "Original Issuer" as previous owner when the seller is null, and the
  seller's name otherwise.
\<close>

theorem later_transactions_are_transfers:
  assumes "parties_are_clients d"
    and "history_GET d (Some i) = Response 200 (History i events)"
    and "0 < k" and "k < length (coin_transactions d i)"
  shows "sorted (map transaction_date (coin_transactions d i)) \<and>
         length events = length (coin_transactions d i) + 1 \<and>
         etype (events ! k) = Transfer \<and>
         owner_id (events ! k) = Some (buyer_id (coin_transactions d i ! k)) \<and>
         previous_owner_id (events ! k) = seller_id (coin_transactions d i ! k) \<and>
         (seller_id (coin_transactions d i ! k) = None \<longrightarrow>
            previous_owner_label (events ! k) = ''Original Issuer'') \<and>
         (\<forall>s n. seller_id (coin_transactions d i ! k) = Some s \<and> clients d s = Some n \<and> n \<noteq> [] \<longrightarrow>
            previous_owner_label (events ! k) = n)"
proof -
  let ?txs = "coin_transactions d i"
  let ?t = "?txs ! k"
  let ?rows = "history_query d i"
  have rows: "?rows = map (\<lambda>t. the (join_clients d t)) ?txs"
    using assms(1) by (rule history_query_known)
  then have len: "length ?rows = length ?txs" by simp
  from assms(3,4) len obtain tx txs where cons: "?rows = tx # txs"
    by (cases ?rows) auto
  from history_GET_events [OF assms(2)] cons obtain c where
    ev: "events = (generated_event tx # map transfer_event txs) @
           [current_owner d c (generated_event tx # map transfer_event txs)
              (Some (row_buyer_id (last (tx # txs))))]"
    by auto
  have k: "k < length (tx # txs)" using assms(4) len cons by simp
  have evk: "events ! k = transfer_event (?rows ! k)"
  proof -
    from assms(3) obtain k' where k': "k = Suc k'" by (cases k) auto
    with k have "k' < length txs" by simp
    with k' ev cons show ?thesis by (simp add: nth_append)
  qed
  have "?t \<in> set ?txs" using assms(4) by simp
  then have "?t \<in> set (transactions d)" using coin_transactions_subset by blast
  with assms(1) have known: "clients d (buyer_id ?t) \<noteq> None"
      "case seller_id ?t of None \<Rightarrow> True | Some s \<Rightarrow> clients d s \<noteq> None"
    by (auto simp: parties_are_clients_def list_all_iff)
  from join_clients_known [OF known] obtain row where
    row: "join_clients d ?t = Some row" "row_buyer_id row = buyer_id ?t"
      "row_seller_id row = seller_id ?t"
      "row_seller_name row = (case seller_id ?t of None \<Rightarrow> None | Some s \<Rightarrow> clients d s)"
    by blast
  have rk: "?rows ! k = row" using rows assms(4) row(1) by simp
  have len_ev: "length events = length ?txs + 1"
    using ev cons len by simp
  show ?thesis
    using coin_transactions_sorted [of d i] len_ev evk rk row(2-4)
    by (auto simp: transfer_event_def previous_owner_label_def)
qed

theorem later_transactions_are_transfers_witness:
  "parties_are_clients history_db \<and>
   history_GET history_db (Some 5) = Response 200 (History 5 history_timeline) \<and>
   map tx_id (coin_transactions history_db 5) = [14, 11, 13] \<and>
   etype (history_timeline ! 1) = Transfer \<and>
   owner_id (history_timeline ! 1) = Some 2 \<and>
   previous_owner_id (history_timeline ! 1) = Some 1 \<and>
   previous_owner_label (history_timeline ! 1) = ''Ana'' \<and>
   etype (history_timeline ! 2) = Transfer \<and>
   owner_id (history_timeline ! 2) = Some 3 \<and>
   previous_owner_id (history_timeline ! 2) = None \<and>
   previous_owner_label (history_timeline ! 2) = ''Original Issuer''"
proof -
  have p: "parties_are_clients history_db"
    by (simp add: parties_are_clients_def history_db_def)
  have txs: "coin_transactions history_db 5 =
      [\<lparr>tx_id = 14, tx_coin_id = 5, buyer_id = 1, seller_id = None, amount = Fin 70,
          transaction_date = ''2025-01-05T08:00:00.000Z''\<rparr>,
       \<lparr>tx_id = 11, tx_coin_id = 5, buyer_id = 2, seller_id = Some 1, amount = Fin 80,
          transaction_date = ''2025-02-10T08:00:00.000Z''\<rparr>,
       \<lparr>tx_id = 13, tx_coin_id = 5, buyer_id = 3, seller_id = None, amount = Fin 90,
          transaction_date = ''2025-03-01T08:00:00.000Z''\<rparr>]"
    by (simp add: coin_transactions_def history_db_def)
  have f: "find (\<lambda>c. coin_id c = 5) (coins history_db)
      = Some \<lparr>coin_id = 5, bit1 = 2, bit2 = 2, bit3 = 9, coin_value = Fin 90, client_id = Some 3\<rparr>"
    by (simp add: history_db_def)
  have cl: "clients history_db = [1 \<mapsto> ''Ana'', 2 \<mapsto> ''Bogdan'', 3 \<mapsto> ''Carmen'']"
    by (simp add: history_db_def)
  have hq: "history_query history_db 5 =
      [\<lparr>row_transaction_date = ''2025-01-05T08:00:00.000Z'', row_amount = Fin 70,
        row_seller_id = None, row_seller_name = None, row_buyer_id = 1,
        row_buyer_name = ''Ana''\<rparr>,
       \<lparr>row_transaction_date = ''2025-02-10T08:00:00.000Z'', row_amount = Fin 80,
        row_seller_id = Some 1, row_seller_name = Some ''Ana'', row_buyer_id = 2,
        row_buyer_name = ''Bogdan''\<rparr>,
       \<lparr>row_transaction_date = ''2025-03-01T08:00:00.000Z'', row_amount = Fin 90,
        row_seller_id = None, row_seller_name = None, row_buyer_id = 3,
        row_buyer_name = ''Carmen''\<rparr>]"
    unfolding history_query_def txs
    by (simp add: join_clients_def map_filter_simps cl)
  have h: "history_GET history_db (Some 5) = Response 200 (History 5 history_timeline)"
    by (simp add: history_GET_def f hq cl history_timeline_def generated_event_def
          transfer_event_def current_owner_def client_name_def)
  have c: "clients history_db 1 = Some ''Ana''" by (simp add: cl)
  from later_transactions_are_transfers [OF p h, of 1]
    later_transactions_are_transfers [OF p h, of 2] p h txs c
  show ?thesis by simp
qed

subsection \<open>Exhaustion of the combination space\<close>

text \<open>
  Claim C5. When 1000 coins exist, with pairwise different combinations from the
  10 x 10 x 10 space (so every combination is assigned), \<^verbatim>\<open>generate\<close> by an
  authenticated requester with a value above 0 answers with the exhaustion error of the
  draw loop, whatever \<^verbatim>\<open>Math.random()\<close> returns, and the server is as before: no coin
  row and no transaction row is created.
\<close>

theorem generate_exhausted:
  assumes "length (coins (db srv)) = 1000" and "unique_triples (db srv)"
    and "list_all in_space (coins (db srv))"
    and "random_source rnd" and "fault SelectBits = None" and "\<not> le_zero v"
  shows "generate_POST srv (UserData u) (Num v) now rnd fault = (ExhaustionError, srv)"
proof -
  have "draw_loop (set (map coin_key (coins (db srv)))) rnd 0 = Inl exhausted_message"
    using assms(1-4)
    by (intro draw_loop_exhausted full_occupancy_keys) (simp_all add: unique_triples_def)
  then have "generate_tx (db srv) u v now rnd fault = Inl exhausted_message"
    using assms(5) by (simp add: generate_tx_def generateUniqueBits_def)
  then show ?thesis
    using assms(6) by (cases v) (simp_all add: generate_POST_def ExhaustionError_def)
qed

theorem generate_exhausted_witness:
  "length (coins (db full_server)) = 1000 \<and> unique_triples (db full_server) \<and>
   list_all in_space (coins (db full_server)) \<and> random_source example_rnd \<and>
   no_fault SelectBits = None \<and> \<not> le_zero (Fin 250) \<and>
   generate_POST full_server (UserData 1) (Num (Fin 250)) ''2025-03-02T09:30:00.000Z'' example_rnd no_fault
     = (ExhaustionError, full_server)"
proof -
  have nf: "no_fault SelectBits = None" by (simp add: no_fault_def)
  have pos: "\<not> le_zero (Fin 250)" by simp
  from generate_exhausted [where srv = full_server and rnd = example_rnd and fault = no_fault
      and v = "Fin 250" and u = 1 and now = "''2025-03-02T09:30:00.000Z''"]
    full_server_length full_server_unique full_server_in_space example_rnd_source nf pos
  show ?thesis by blast
qed

subsection \<open>Cache invalidation\<close>

text \<open>
  Claim C8. After a successful \<^verbatim>\<open>generate\<close> or \<^verbatim>\<open>buy\<close> (status 200) both the
  transactions cache and the coins cache are empty: every entry has been removed.
\<close>

theorem caches_cleared_on_success:
  "(status (fst (generate_POST srv authz v now rnd fault)) = 200 \<longrightarrow>
      transactionCache (snd (generate_POST srv authz v now rnd fault)) = Map.empty \<and>
      coinCache (snd (generate_POST srv authz v now rnd fault)) = Map.empty) \<and>
   (status (fst (buy_POST srv authz i now fault)) = 200 \<longrightarrow>
      transactionCache (snd (buy_POST srv authz i now fault)) = Map.empty \<and>
      coinCache (snd (buy_POST srv authz i now fault)) = Map.empty)"
  by (auto simp: generate_POST_def buy_POST_def buy_def buy_tx_def Let_def
           split: auth.splits sum.splits prod.splits buy_outcome.splits option.splits if_splits)

theorem caches_cleared_on_success_witness:
  "status (fst (generate_POST example_server (UserData 2) (Num (Fin 250))
                  ''2025-03-02T09:30:00.000Z'' example_rnd no_fault)) = 200 \<and>
   transactionCache (snd (generate_POST example_server (UserData 2) (Num (Fin 250))
                  ''2025-03-02T09:30:00.000Z'' example_rnd no_fault)) = Map.empty \<and>
   coinCache (snd (generate_POST example_server (UserData 2) (Num (Fin 250))
                  ''2025-03-02T09:30:00.000Z'' example_rnd no_fault)) = Map.empty \<and>
   status (fst (buy_POST example_server (UserData 2) (Some 2)
                  ''2025-03-02T09:30:00.000Z'' no_fault)) = 200 \<and>
   transactionCache (snd (buy_POST example_server (UserData 2) (Some 2)
                  ''2025-03-02T09:30:00.000Z'' no_fault)) = Map.empty \<and>
   coinCache (snd (buy_POST example_server (UserData 2) (Some 2)
                  ''2025-03-02T09:30:00.000Z'' no_fault)) = Map.empty \<and>
   transactionCache example_server \<noteq> Map.empty \<and> coinCache example_server \<noteq> Map.empty"
proof -
  have g: "status (fst (generate_POST example_server (UserData 2) (Num (Fin 250))
                  ''2025-03-02T09:30:00.000Z'' example_rnd no_fault)) = 200"
    by (simp add: handler_defs draw_defs example_defs)
  have b: "status (fst (buy_POST example_server (UserData 2) (Some 2)
                  ''2025-03-02T09:30:00.000Z'' no_fault)) = 200"
    by (simp add: handler_defs example_defs)
  have c: "transactionCache example_server \<noteq> Map.empty \<and> coinCache example_server \<noteq> Map.empty"
    by (simp add: example_defs)
  from g b c
    caches_cleared_on_success [of example_server "UserData 2" "Num (Fin 250)"
      "''2025-03-02T09:30:00.000Z''" example_rnd no_fault "Some 2"]
  show ?thesis by blast
qed

text \<open>
  Claim C10. On every failure of \<^verbatim>\<open>generate\<close> or \<^verbatim>\<open>buy\<close> (any response other than
  status 200: no or invalid token, invalid value, missing coin id, coin not found, coin
  already owned, exhaustion, or a database call that throws) the handler leaves the whole
  server as it was, so both caches keep every entry they had, and a cached page is served
  for as long as it would have been without the request.
\<close>

theorem caches_kept_on_failure:
  "(status (fst (generate_POST srv authz v now rnd fault)) \<noteq> 200 \<longrightarrow>
      snd (generate_POST srv authz v now rnd fault) = srv \<and>
      transactionCache (snd (generate_POST srv authz v now rnd fault)) = transactionCache srv \<and>
      coinCache (snd (generate_POST srv authz v now rnd fault)) = coinCache srv \<and>
      (\<forall>k t. cached_page (transactionCache (snd (generate_POST srv authz v now rnd fault))) k t
               = cached_page (transactionCache srv) k t \<and>
             cached_page (coinCache (snd (generate_POST srv authz v now rnd fault))) k t
               = cached_page (coinCache srv) k t)) \<and>
   (status (fst (buy_POST srv authz i now fault)) \<noteq> 200 \<longrightarrow>
      snd (buy_POST srv authz i now fault) = srv \<and>
      transactionCache (snd (buy_POST srv authz i now fault)) = transactionCache srv \<and>
      coinCache (snd (buy_POST srv authz i now fault)) = coinCache srv \<and>
      (\<forall>k t. cached_page (transactionCache (snd (buy_POST srv authz i now fault))) k t
               = cached_page (transactionCache srv) k t \<and>
             cached_page (coinCache (snd (buy_POST srv authz i now fault))) k t
               = cached_page (coinCache srv) k t))"
proof (intro conjI impI)
  assume "status (fst (generate_POST srv authz v now rnd fault)) \<noteq> 200"
  then have g: "snd (generate_POST srv authz v now rnd fault) = srv"
    by (rule generate_POST_failure)
  then show "snd (generate_POST srv authz v now rnd fault) = srv"
    and "transactionCache (snd (generate_POST srv authz v now rnd fault)) = transactionCache srv"
    and "coinCache (snd (generate_POST srv authz v now rnd fault)) = coinCache srv"
    and "\<forall>k t. cached_page (transactionCache (snd (generate_POST srv authz v now rnd fault))) k t
               = cached_page (transactionCache srv) k t \<and>
             cached_page (coinCache (snd (generate_POST srv authz v now rnd fault))) k t
               = cached_page (coinCache srv) k t"
    by simp_all
next
  assume "status (fst (buy_POST srv authz i now fault)) \<noteq> 200"
  then have b: "snd (buy_POST srv authz i now fault) = srv"
    by (rule buy_POST_failure)
  then show "snd (buy_POST srv authz i now fault) = srv"
    and "transactionCache (snd (buy_POST srv authz i now fault)) = transactionCache srv"
    and "coinCache (snd (buy_POST srv authz i now fault)) = coinCache srv"
    and "\<forall>k t. cached_page (transactionCache (snd (buy_POST srv authz i now fault))) k t
               = cached_page (transactionCache srv) k t \<and>
             cached_page (coinCache (snd (buy_POST srv authz i now fault))) k t
               = cached_page (coinCache srv) k t"
    by simp_all
qed

theorem caches_kept_on_failure_witness:
  "status (fst (generate_POST example_server (UserData 2) (Num (Fin 250))
                  ''2025-03-02T09:30:00.000Z'' example_rnd (no_fault(InsertTransaction \<mapsto> ''disk I/O error'')))) \<noteq> 200 \<and>
   transactionCache (snd (generate_POST example_server (UserData 2) (Num (Fin 250))
                  ''2025-03-02T09:30:00.000Z'' example_rnd (no_fault(InsertTransaction \<mapsto> ''disk I/O error''))))
     = transactionCache example_server \<and>
   coinCache (snd (generate_POST example_server (UserData 2) (Num (Fin 250))
                  ''2025-03-02T09:30:00.000Z'' example_rnd (no_fault(InsertTransaction \<mapsto> ''disk I/O error''))))
     = coinCache example_server \<and>
   status (fst (buy_POST example_server (UserData 2) (Some 1)
                  ''2025-03-02T09:30:00.000Z'' (no_fault(InsertTransaction \<mapsto> ''disk I/O error'')))) \<noteq> 200 \<and>
   transactionCache (snd (buy_POST example_server (UserData 2) (Some 1)
                  ''2025-03-02T09:30:00.000Z'' (no_fault(InsertTransaction \<mapsto> ''disk I/O error''))))
     = transactionCache example_server \<and>
   coinCache (snd (buy_POST example_server (UserData 2) (Some 1)
                  ''2025-03-02T09:30:00.000Z'' (no_fault(InsertTransaction \<mapsto> ''disk I/O error''))))
     = coinCache example_server \<and>
   cached_page (coinCache (snd (buy_POST example_server (UserData 2) (Some 1)
                  ''2025-03-02T09:30:00.000Z'' (no_fault(InsertTransaction \<mapsto> ''disk I/O error'')))))
       ''coins-1-15'' 60000 = Some ''page''"
proof -
  have g: "status (fst (generate_POST example_server (UserData 2) (Num (Fin 250))
                  ''2025-03-02T09:30:00.000Z'' example_rnd (no_fault(InsertTransaction \<mapsto> ''disk I/O error'')))) \<noteq> 200"
    by (simp add: handler_defs draw_defs example_defs)
  have b: "status (fst (buy_POST example_server (UserData 2) (Some 1)
                  ''2025-03-02T09:30:00.000Z'' (no_fault(InsertTransaction \<mapsto> ''disk I/O error'')))) \<noteq> 200"
    by (simp add: handler_defs example_defs)
  have p: "cached_page (coinCache example_server) ''coins-1-15'' 60000 = Some ''page''"
    by (simp add: cached_page_def CACHE_EXPIRY_TIME_def example_defs)
  from g b
    caches_kept_on_failure [of example_server "UserData 2" "Num (Fin 250)"
      "''2025-03-02T09:30:00.000Z''" example_rnd "no_fault(InsertTransaction \<mapsto> ''disk I/O error'')" "Some 1"]
  have "snd (generate_POST example_server (UserData 2) (Num (Fin 250))
                  ''2025-03-02T09:30:00.000Z'' example_rnd (no_fault(InsertTransaction \<mapsto> ''disk I/O error'')))
          = example_server"
    and "snd (buy_POST example_server (UserData 2) (Some 1)
                  ''2025-03-02T09:30:00.000Z'' (no_fault(InsertTransaction \<mapsto> ''disk I/O error'')))
          = example_server"
    by blast+
  with g b p show ?thesis by simp
qed

end
